theory Spec2Isabelle
  imports Main "HOL-Library.Monad_Syntax"
begin

section \<open>The host framework: pin types, pins, nodes and the graph store\<close>

text \<open>
  The node of \<^verbatim>\<open>K2Node_MultiConditionalSelect.cpp\<close> lives in an editor graph. Pins are
  objects that the code reaches through pointers (\<^verbatim>\<open>UEdGraphPin*\<close>); two pins that are linked
  hold each other in their \<^verbatim>\<open>LinkedTo\<close> arrays. The graph is therefore an explicit store:
  a pointer is the position of the object in the store, \<^verbatim>\<open>nullptr\<close> is \<open>None\<close> of a
  \<open>pin_ptr option\<close>, a new object is put at the end of the store, and a function that would
  dereference a null or dangling pointer, read an array out of range or fail a
  \<^verbatim>\<open>check\<close> returns \<open>None\<close>.
\<close>

type_synonym FName = string

type_synonym pin_ptr = nat

type_synonym node_ptr = nat

datatype EEdGraphPinDirection = EGPD_Input | EGPD_Output

datatype EPinContainerType = ContainerNone | ContainerArray

record FEdGraphPinType =
  PinCategory :: FName
  PinSubCategory :: FName
  PinSubCategoryObject :: "FName option"
  ContainerType :: EPinContainerType

text \<open>The type categories of \<^verbatim>\<open>UEdGraphSchema_K2\<close> that the node names. They are
  constants of the host framework; all that matters is that they are pairwise different.\<close>

definition PC_Wildcard :: FName where
  "PC_Wildcard = ''wildcard''"

definition PC_Boolean :: FName where
  "PC_Boolean = ''bool''"

definition PC_Int :: FName where
  "PC_Int = ''int''"

definition PC_Exec :: FName where
  "PC_Exec = ''exec''"

record UEdGraphPin =
  PinName :: FName
  PinFriendlyName :: string
  Direction :: EEdGraphPinDirection
  PinType :: FEdGraphPinType
  DefaultValue :: string
  LinkedTo :: "pin_ptr list"
  OwningNode :: node_ptr

datatype node_class =
    K2Node_MultiConditionalSelect
  | K2Node_Select
  | K2Node_MakeArray
  | K2Node_CallFunction FName
  | K2Node_Other

record UEdGraphNode =
  NodeClass :: node_class
  Pins :: "pin_ptr list"

text \<open>The store. \<open>SchemaDefault\<close> is the schema's table of canonical literal defaults, one
  for each pin type; \<open>bBlueprintModified\<close> and \<open>NumBroadcasts\<close> record the two notifications
  that the type unification sends to the owning document.\<close>

record UEdGraph =
  pin_store :: "UEdGraphPin list"
  node_store :: "UEdGraphNode list"
  SchemaDefault :: "FEdGraphPinType \<Rightarrow> string"
  bBlueprintModified :: bool
  NumBroadcasts :: nat

definition PinOf :: "UEdGraph \<Rightarrow> pin_ptr \<Rightarrow> UEdGraphPin option" where
  "PinOf g p = (if p < length (pin_store g) then Some (pin_store g ! p) else None)"

definition NodeOf :: "UEdGraph \<Rightarrow> node_ptr \<Rightarrow> UEdGraphNode option" where
  "NodeOf g n = (if n < length (node_store g) then Some (node_store g ! n) else None)"

definition UpdatePin :: "pin_ptr \<Rightarrow> (UEdGraphPin \<Rightarrow> UEdGraphPin) \<Rightarrow> UEdGraph \<Rightarrow> UEdGraph option" where
  "UpdatePin p f g =
     (if p < length (pin_store g)
      then Some (g\<lparr>pin_store := (pin_store g)[p := f (pin_store g ! p)]\<rparr>)
      else None)"

definition NodePins :: "UEdGraph \<Rightarrow> node_ptr \<Rightarrow> pin_ptr list" where
  "NodePins g n = (case NodeOf g n of None \<Rightarrow> [] | Some nd \<Rightarrow> Pins nd)"

text \<open>Reading an array at an index: \<open>None\<close> outside the array.\<close>

definition At :: "'a list \<Rightarrow> nat \<Rightarrow> 'a option" where
  "At xs i = (if i < length xs then Some (xs ! i) else None)"

text \<open>A loop over an array whose body may fail.\<close>

fun ForEach :: "('a \<Rightarrow> 's \<Rightarrow> 's option) \<Rightarrow> 'a list \<Rightarrow> 's \<Rightarrow> 's option" where
  "ForEach body [] s = Some s"
| "ForEach body (x # xs) s = (case body x s of None \<Rightarrow> None | Some s' \<Rightarrow> ForEach body xs s')"

text \<open>Modelled from the spec: \<^verbatim>\<open>UEdGraphNode::CreatePin\<close>, the host's ``create a pin
  (direction, type-category, stable name, ordinal position) \<open>\<rightarrow>\<close> pin handle''. The new pin
  is inserted at the ordinal position when that is a valid index of the pin array and is
  appended otherwise (the host's \<^verbatim>\<open>INDEX_NONE\<close> is \<open>-1\<close>).\<close>

definition InsertOrAdd :: "int \<Rightarrow> 'a \<Rightarrow> 'a list \<Rightarrow> 'a list" where
  "InsertOrAdd Index x xs =
     (if 0 \<le> Index \<and> Index < int (length xs)
      then take (nat Index) xs @ [x] @ drop (nat Index) xs
      else xs @ [x])"

definition NewPin :: "node_ptr \<Rightarrow> EEdGraphPinDirection \<Rightarrow> FEdGraphPinType \<Rightarrow> FName \<Rightarrow> UEdGraphPin" where
  "NewPin this Dir Type Name =
     \<lparr>PinName = Name, PinFriendlyName = [], Direction = Dir, PinType = Type,
      DefaultValue = [], LinkedTo = [], OwningNode = this\<rparr>"

definition CreatePinOfType ::
  "node_ptr \<Rightarrow> EEdGraphPinDirection \<Rightarrow> FEdGraphPinType \<Rightarrow> FName \<Rightarrow> int \<Rightarrow> UEdGraph \<Rightarrow>
   (pin_ptr \<times> UEdGraph) option" where
  "CreatePinOfType this Dir Type Name Index g =
     (case NodeOf g this of
        None \<Rightarrow> None
      | Some nd \<Rightarrow>
          let p = length (pin_store g)
          in Some (p, g\<lparr>pin_store := pin_store g @ [NewPin this Dir Type Name],
                        node_store := (node_store g)[this := nd\<lparr>Pins := InsertOrAdd Index p (Pins nd)\<rparr>]\<rparr>))"

definition CategoryType :: "FName \<Rightarrow> FEdGraphPinType" where
  "CategoryType Category =
     \<lparr>PinCategory = Category, PinSubCategory = [], PinSubCategoryObject = None,
      ContainerType = ContainerNone\<rparr>"

definition CreatePin ::
  "node_ptr \<Rightarrow> EEdGraphPinDirection \<Rightarrow> FName \<Rightarrow> FName \<Rightarrow> int \<Rightarrow> UEdGraph \<Rightarrow>
   (pin_ptr \<times> UEdGraph) option" where
  "CreatePin this Dir Category Name Index g =
     CreatePinOfType this Dir (CategoryType Category) Name Index g"

text \<open>Modelled from the spec: \<^verbatim>\<open>UEdGraphNode::FindPin\<close>, ``find a pin by stable name \<open>\<rightarrow>\<close>
  pin handle or not-found'': the first pin of the node with that name.\<close>

definition PinSatisfies :: "UEdGraph \<Rightarrow> (UEdGraphPin \<Rightarrow> bool) \<Rightarrow> pin_ptr \<Rightarrow> bool" where
  "PinSatisfies g P p = (case PinOf g p of None \<Rightarrow> False | Some pin \<Rightarrow> P pin)"

definition FindPin :: "UEdGraph \<Rightarrow> node_ptr \<Rightarrow> FName \<Rightarrow> pin_ptr option" where
  "FindPin g this Name = find (PinSatisfies g (\<lambda>pin. PinName pin = Name)) (NodePins g this)"

text \<open>Modelled from the spec: \<^verbatim>\<open>UEdGraphSchema_K2::ResetPinToAutogeneratedDefaultValue\<close>,
  ``reset its literal default value to the type's canonical default''.\<close>

definition ResetPinToAutogeneratedDefaultValue :: "pin_ptr \<Rightarrow> UEdGraph \<Rightarrow> UEdGraph option" where
  "ResetPinToAutogeneratedDefaultValue p g =
     UpdatePin p (\<lambda>pin. pin\<lparr>DefaultValue := SchemaDefault g (PinType pin)\<rparr>) g"

text \<open>Modelled from the spec: ``mark the owning document as modified and notify observers
  that the document changed''.\<close>

definition MarkBlueprintAsModified :: "UEdGraph \<Rightarrow> UEdGraph" where
  "MarkBlueprintAsModified g = g\<lparr>bBlueprintModified := True\<rparr>"

definition BroadcastChanged :: "UEdGraph \<Rightarrow> UEdGraph" where
  "BroadcastChanged g = g\<lparr>NumBroadcasts := Suc (NumBroadcasts g)\<rparr>"

text \<open>\<^verbatim>\<open>P->PinType = Q->PinType\<close>: both pointers are dereferenced at the moment of the
  assignment.\<close>

definition CopyPinType :: "pin_ptr \<Rightarrow> pin_ptr \<Rightarrow> UEdGraph \<Rightarrow> UEdGraph option" where
  "CopyPinType P Q g = do {
     src \<leftarrow> PinOf g Q;
     UpdatePin P (\<lambda>pin. pin\<lparr>PinType := PinType src\<rparr>) g
   }"

section \<open>The pin set of the node\<close>

subsection \<open>Names\<close>

definition DefaultOptionPinName :: FName where
  "DefaultOptionPinName = ''Default''"

definition ReturnValueOptionPinName :: FName where
  "ReturnValueOptionPinName = ''Return Value''"

definition CaseKeyPinNamePrefix :: string where
  "CaseKeyPinNamePrefix = ''CaseOption''"

definition CaseValuePinNamePrefix :: string where
  "CaseValuePinNamePrefix = ''CaseCondition''"

definition CaseKeyPinFriendlyNamePrefix :: string where
  "CaseKeyPinFriendlyNamePrefix = ''Option ''"

definition CaseValuePinFriendlyNamePrefix :: string where
  "CaseValuePinFriendlyNamePrefix = ''Condition ''"

text \<open>The decimal form of an index, as \<^verbatim>\<open>%d\<close> prints it.\<close>

definition DigitChar :: "nat \<Rightarrow> char" where
  "DigitChar d = ''0123456789'' ! d"

fun FormatNat :: "nat \<Rightarrow> string" where
  "FormatNat n =
     (if 10 \<le> n then FormatNat (n div 10) @ [DigitChar (n mod 10)] else [DigitChar n])"

declare FormatNat.simps [simp del]

definition FormatInt :: "int \<Rightarrow> string" where
  "FormatInt i = (if 0 \<le> i then FormatNat (nat i) else CHR ''-'' # FormatNat (nat (- i)))"

definition StartsWith :: "string \<Rightarrow> string \<Rightarrow> bool" where
  "StartsWith s pre = (take (length pre) s = pre)"

text \<open>Modelled from the spec: \<^verbatim>\<open>GetCasePinName\<close> and \<^verbatim>\<open>GetCasePinFriendlyName\<close> of the
  base class \<^verbatim>\<open>UK2Node_CasePairedPinsNode\<close>, which is not among the sources: ``option pin
  i's stable identifier is \<open><option-prefix><i>\<close>'', and the label follows the same scheme
  with the friendly prefix.\<close>

definition GetCasePinName :: "string \<Rightarrow> int \<Rightarrow> FName" where
  "GetCasePinName Prefix CaseIndex = Prefix @ FormatInt CaseIndex"

definition GetCasePinFriendlyName :: "string \<Rightarrow> int \<Rightarrow> string" where
  "GetCasePinFriendlyName Prefix CaseIndex = Prefix @ FormatInt CaseIndex"

text \<open>Modelled from the spec: \<^verbatim>\<open>IsCaseKeyPin\<close> and \<^verbatim>\<open>IsCaseValuePin\<close> of the base class.
  A pin's role is read from its stable name: an option pin carries the option prefix, a
  condition pin the condition prefix.\<close>

definition IsCaseKeyPin :: "UEdGraphPin \<Rightarrow> bool" where
  "IsCaseKeyPin pin = StartsWith (PinName pin) CaseKeyPinNamePrefix"

definition IsCaseValuePin :: "UEdGraphPin \<Rightarrow> bool" where
  "IsCaseValuePin pin = StartsWith (PinName pin) CaseValuePinNamePrefix"

definition CaseKeyPins :: "UEdGraph \<Rightarrow> node_ptr \<Rightarrow> pin_ptr list" where
  "CaseKeyPins g this = filter (PinSatisfies g IsCaseKeyPin) (NodePins g this)"

definition CaseValuePins :: "UEdGraph \<Rightarrow> node_ptr \<Rightarrow> pin_ptr list" where
  "CaseValuePins g this = filter (PinSatisfies g IsCaseValuePin) (NodePins g this)"

text \<open>Modelled from the spec: \<^verbatim>\<open>GetCasePinCount\<close> of the base class, the ``total case-pair
  count (derived from counting option pins, not stored separately)''.\<close>

definition GetCasePinCount :: "UEdGraph \<Rightarrow> node_ptr \<Rightarrow> nat" where
  "GetCasePinCount g this = length (CaseKeyPins g this)"

text \<open>Modelled from the spec: \<^verbatim>\<open>GetCasePinPairs\<close> of the base class, the ``case-pin-pairs
  as an ordered sequence of (option, condition) pairs'': the option pins and the condition
  pins of the node, each in pin order, paired position by position.\<close>

definition GetCasePinPairs :: "UEdGraph \<Rightarrow> node_ptr \<Rightarrow> (pin_ptr \<times> pin_ptr) list" where
  "GetCasePinPairs g this = zip (CaseKeyPins g this) (CaseValuePins g this)"

subsection \<open>Creating and finding the pins\<close>

definition CreateDefaultOptionPin :: "node_ptr \<Rightarrow> UEdGraph \<Rightarrow> UEdGraph option" where
  "CreateDefaultOptionPin this g =
     map_option snd (CreatePin this EGPD_Input PC_Wildcard DefaultOptionPinName 0 g)"

definition CreateReturnValuePin :: "node_ptr \<Rightarrow> UEdGraph \<Rightarrow> UEdGraph option" where
  "CreateReturnValuePin this g =
     (let N = int (GetCasePinCount g this)
      in map_option snd
           (CreatePin this EGPD_Output PC_Wildcard ReturnValueOptionPinName (2 * N + 1) g))"

definition GetDefaultOptionPin :: "UEdGraph \<Rightarrow> node_ptr \<Rightarrow> pin_ptr option" where
  "GetDefaultOptionPin g this = FindPin g this DefaultOptionPinName"

definition GetReturnValuePin :: "UEdGraph \<Rightarrow> node_ptr \<Rightarrow> pin_ptr option" where
  "GetReturnValuePin g this = FindPin g this ReturnValueOptionPinName"

definition AddCasePinPair ::
  "node_ptr \<Rightarrow> int \<Rightarrow> UEdGraph \<Rightarrow> ((pin_ptr \<times> pin_ptr) \<times> UEdGraph) option" where
  "AddCasePinPair this CaseIndex g0 =
     (let N = int (GetCasePinCount g0 this);
          DefaultOptionPin = GetDefaultOptionPin g0 this
      in do {
        (Key, g1) \<leftarrow> CreatePin this EGPD_Input PC_Wildcard
                       (GetCasePinName CaseKeyPinNamePrefix CaseIndex) (1 + CaseIndex) g0;
        g2 \<leftarrow> UpdatePin Key (\<lambda>pin. pin\<lparr>PinFriendlyName :=
                       GetCasePinFriendlyName CaseKeyPinFriendlyNamePrefix CaseIndex\<rparr>) g1;
        d \<leftarrow> DefaultOptionPin;
        g3 \<leftarrow> CopyPinType Key d g2;
        (Value, g4) \<leftarrow> CreatePin this EGPD_Input PC_Boolean
                       (GetCasePinName CaseValuePinNamePrefix CaseIndex) (N + 2 + CaseIndex) g3;
        g5 \<leftarrow> UpdatePin Value (\<lambda>pin. pin\<lparr>PinFriendlyName :=
                       GetCasePinFriendlyName CaseValuePinFriendlyNamePrefix CaseIndex\<rparr>) g4;
        Some ((Key, Value), g5)
      })"

text \<open>The base implementations \<^verbatim>\<open>Super::AllocateDefaultPins\<close>,
  \<^verbatim>\<open>Super::PinConnectionListChanged\<close> and \<^verbatim>\<open>Super::ExpandNode\<close> and the undo hook
  \<^verbatim>\<open>Modify\<close> belong to the host; they keep no state of the pin set and leave the store as
  it is.\<close>

definition Super_AllocateDefaultPins :: "node_ptr \<Rightarrow> UEdGraph \<Rightarrow> UEdGraph option" where
  "Super_AllocateDefaultPins this g = Some g"

definition Super_PinConnectionListChanged :: "node_ptr \<Rightarrow> pin_ptr \<Rightarrow> UEdGraph \<Rightarrow> UEdGraph option" where
  "Super_PinConnectionListChanged this Pin g = Some g"

definition Super_ExpandNode :: "node_ptr \<Rightarrow> UEdGraph \<Rightarrow> UEdGraph option" where
  "Super_ExpandNode this g = Some g"

definition Modify :: "node_ptr \<Rightarrow> UEdGraph \<Rightarrow> UEdGraph option" where
  "Modify this g = Some g"

definition AllocateDefaultPins :: "node_ptr \<Rightarrow> UEdGraph \<Rightarrow> UEdGraph option" where
  "AllocateDefaultPins this g0 = do {
     g1 \<leftarrow> CreateDefaultOptionPin this g0;
     g2 \<leftarrow> CreateReturnValuePin this g1;
     g3 \<leftarrow> ForEach (\<lambda>Index g. map_option snd (AddCasePinPair this Index g)) [0, 1] g2;
     Super_AllocateDefaultPins this g3
   }"

section \<open>The type unification pass\<close>

definition PinConnectionListChanged :: "node_ptr \<Rightarrow> pin_ptr option \<Rightarrow> UEdGraph \<Rightarrow> UEdGraph option" where
  "PinConnectionListChanged this Pin g0 =
     (case Pin of
        None \<Rightarrow> Some g0
      | Some P \<Rightarrow> do {
          pin \<leftarrow> PinOf g0 P;
          if LinkedTo pin = [] then Some g0
          else if IsCaseValuePin pin then Some g0
          else do {
            d0 \<leftarrow> GetDefaultOptionPin g0 this;
            dpin \<leftarrow> PinOf g0 d0;
            if PinCategory (PinType dpin) \<noteq> PC_Wildcard then Some g0
            else do {
              g1 \<leftarrow> Super_PinConnectionListChanged this P g0;
              g2 \<leftarrow> Modify this g1;
              pin' \<leftarrow> PinOf g2 P;
              LinkedPin \<leftarrow> At (LinkedTo pin') 0;
              DefaultOptionPin \<leftarrow> GetDefaultOptionPin g2 this;
              g3 \<leftarrow> CopyPinType DefaultOptionPin LinkedPin g2;
              g4 \<leftarrow> ResetPinToAutogeneratedDefaultValue DefaultOptionPin g3;
              ReturnValuePin \<leftarrow> GetReturnValuePin g4 this;
              g5 \<leftarrow> CopyPinType ReturnValuePin LinkedPin g4;
              g6 \<leftarrow> ResetPinToAutogeneratedDefaultValue ReturnValuePin g5;
              g7 \<leftarrow> ForEach (\<lambda>Pair g. do {
                        g' \<leftarrow> CopyPinType (fst Pair) LinkedPin g;
                        ResetPinToAutogeneratedDefaultValue (fst Pair) g'
                      }) (GetCasePinPairs g6 this) g6;
              Some (BroadcastChanged (MarkBlueprintAsModified g7))
            }
          }
        })"

section \<open>Reconstruction\<close>

text \<open>Modelled from the spec: \<^verbatim>\<open>Super::ReallocatePinsDuringReconstruction\<close> of the base
  class \<^verbatim>\<open>UK2Node_CasePairedPinsNode\<close>, which is not among the sources. On reconstruction
  ``pins are recreated fresh'' and the case pairs are kept: the base class adds one case
  pair for each option pin of the old pin set, with the indices \<open>0, 1, \<dots>\<close> in order.\<close>

definition Super_ReallocatePinsDuringReconstruction ::
  "node_ptr \<Rightarrow> pin_ptr list \<Rightarrow> UEdGraph \<Rightarrow> UEdGraph option" where
  "Super_ReallocatePinsDuringReconstruction this OldPins g =
     (let CasePinCount = length (filter (PinSatisfies g IsCaseKeyPin) OldPins)
      in ForEach (\<lambda>Index g'. map_option snd (AddCasePinPair this Index g'))
           (map int [0 ..< CasePinCount]) g)"

definition ReallocatePinsDuringReconstruction ::
  "node_ptr \<Rightarrow> pin_ptr list \<Rightarrow> UEdGraph \<Rightarrow> UEdGraph option" where
  "ReallocatePinsDuringReconstruction this OldPins g0 = do {
     OldDefaultPin \<leftarrow> ForEach (\<lambda>Pin old. do {
                        pin \<leftarrow> PinOf g0 Pin;
                        Some (if PinName pin = DefaultOptionPinName then Some Pin else old)
                      }) OldPins None;
     g1 \<leftarrow> CreateDefaultOptionPin this g0;
     g2 \<leftarrow> CreateReturnValuePin this g1;
     g3 \<leftarrow> Super_ReallocatePinsDuringReconstruction this OldPins g2;
     (case OldDefaultPin of
        None \<Rightarrow> Some g3
      | Some old \<Rightarrow> do {
          d \<leftarrow> GetDefaultOptionPin g3 this;
          g4 \<leftarrow> CopyPinType d old g3;
          r \<leftarrow> GetReturnValuePin g4 this;
          g5 \<leftarrow> CopyPinType r old g4;
          ForEach (\<lambda>Pair g. CopyPinType (fst Pair) old g) (GetCasePinPairs g5 this) g5
        })
   }"

text \<open>Modelled from the spec: the reconstruction event of the host. ``Pins are recreated
  fresh'': the node's pins become the old pin set, the node is left without pins, and the
  node's \<^verbatim>\<open>ReallocatePinsDuringReconstruction\<close> builds the new ones.\<close>

definition ReconstructNode :: "node_ptr \<Rightarrow> UEdGraph \<Rightarrow> UEdGraph option" where
  "ReconstructNode this g =
     (case NodeOf g this of
        None \<Rightarrow> None
      | Some nd \<Rightarrow>
          ReallocatePinsDuringReconstruction this (Pins nd)
            (g\<lparr>node_store := (node_store g)[this := nd\<lparr>Pins := []\<rparr>]\<rparr>))"

section \<open>Connection validation\<close>

text \<open>\<^verbatim>\<open>IsConnectionDisallowed\<close> reads the two pins and writes the reason through
  \<^verbatim>\<open>OutReason\<close>; the model returns the decision together with the reason. The base class's
  decision \<open>Super\<close> is a parameter. A null \<^verbatim>\<open>OtherPin\<close> is \<open>None\<close>.\<close>

definition ExecConnectionDisallowd :: string where
  "ExecConnectionDisallowd = ''Can'' @ [CHR 0x27] @ ''t connect with Exec pin.''"

definition IsConnectionDisallowed ::
  "(UEdGraphPin option \<Rightarrow> UEdGraphPin option \<Rightarrow> string \<Rightarrow> bool \<times> string) \<Rightarrow>
   UEdGraphPin option \<Rightarrow> UEdGraphPin option \<Rightarrow> string \<Rightarrow> bool \<times> string" where
  "IsConnectionDisallowed Super MyPin OtherPin OutReason =
     (case OtherPin of
        Some other \<Rightarrow>
          if PinCategory (PinType other) = PC_Exec then (True, ExecConnectionDisallowd)
          else Super MyPin OtherPin OutReason
      | None \<Rightarrow> Super MyPin OtherPin OutReason)"

section \<open>The primitive nodes of the host\<close>

text \<open>Expansion builds its subgraph from four kinds of primitive node of the host: the
  multiplexer \<^verbatim>\<open>UK2Node_Select\<close>, the array builder \<^verbatim>\<open>UK2Node_MakeArray\<close> and two calls of
  library functions, the array search \<^verbatim>\<open>Array_Find\<close> and the integer equality
  \<^verbatim>\<open>EqualEqual_IntInt\<close>. None of them is among the sources. Each is modelled from the spec
  as a node with a fixed port contract, its ports found by name, as the node's code
  finds them.\<close>

text \<open>Modelled from the spec: ``spawn a primitive computation node of a given kind within
  a target graph''.\<close>

definition SpawnIntermediateNode :: "node_class \<Rightarrow> UEdGraph \<Rightarrow> node_ptr \<times> UEdGraph" where
  "SpawnIntermediateNode cls g =
     (length (node_store g), g\<lparr>node_store := node_store g @ [\<lparr>NodeClass = cls, Pins = []\<rparr>]\<rparr>)"

definition FindPinChecked :: "UEdGraph \<Rightarrow> node_ptr \<Rightarrow> FName \<Rightarrow> pin_ptr option" where
  "FindPinChecked g n Name = FindPin g n Name"

definition SetPinCategory :: "pin_ptr \<Rightarrow> FName \<Rightarrow> UEdGraph \<Rightarrow> UEdGraph option" where
  "SetPinCategory p Category g =
     UpdatePin p (\<lambda>pin. pin\<lparr>PinType := (PinType pin)\<lparr>PinCategory := Category\<rparr>\<rparr>) g"

definition TrySetDefaultValue :: "pin_ptr \<Rightarrow> string \<Rightarrow> UEdGraph \<Rightarrow> UEdGraph option" where
  "TrySetDefaultValue p NewDefaultValue g =
     UpdatePin p (\<lambda>pin. pin\<lparr>DefaultValue := NewDefaultValue\<rparr>) g"

subsection \<open>Links\<close>

text \<open>Modelled from the spec: ``link two pins / migrate all links from one pin to another
  / query a pin's linked peers'' and ``fully disconnect/retire a node''. A link is held by
  both of its ends. Migrating the links of a pin breaks each of them and makes it again
  from the target pin; the host carries the literal default of the source pin over to
  the target as well.\<close>

definition MakeLinkTo :: "pin_ptr \<Rightarrow> pin_ptr \<Rightarrow> UEdGraph \<Rightarrow> UEdGraph option" where
  "MakeLinkTo A B g = do {
     a \<leftarrow> PinOf g A;
     if B \<in> set (LinkedTo a) then Some g
     else do {
       g1 \<leftarrow> UpdatePin A (\<lambda>pin. pin\<lparr>LinkedTo := LinkedTo pin @ [B]\<rparr>) g;
       UpdatePin B (\<lambda>pin. pin\<lparr>LinkedTo := LinkedTo pin @ [A]\<rparr>) g1
     }
   }"

definition BreakLinkTo :: "pin_ptr \<Rightarrow> pin_ptr \<Rightarrow> UEdGraph \<Rightarrow> UEdGraph option" where
  "BreakLinkTo A B g = do {
     g1 \<leftarrow> UpdatePin A (\<lambda>pin. pin\<lparr>LinkedTo := removeAll B (LinkedTo pin)\<rparr>) g;
     UpdatePin B (\<lambda>pin. pin\<lparr>LinkedTo := removeAll A (LinkedTo pin)\<rparr>) g1
   }"

definition BreakAllPinLinks :: "pin_ptr \<Rightarrow> UEdGraph \<Rightarrow> UEdGraph option" where
  "BreakAllPinLinks A g = do {
     a \<leftarrow> PinOf g A;
     ForEach (\<lambda>B. BreakLinkTo A B) (LinkedTo a) g
   }"

definition MovePinLinksToIntermediate :: "pin_ptr \<Rightarrow> pin_ptr \<Rightarrow> UEdGraph \<Rightarrow> UEdGraph option" where
  "MovePinLinksToIntermediate SourcePin IntermediatePin g = do {
     src \<leftarrow> PinOf g SourcePin;
     g1 \<leftarrow> BreakAllPinLinks SourcePin g;
     g2 \<leftarrow> ForEach (\<lambda>NewLink. MakeLinkTo IntermediatePin NewLink) (LinkedTo src) g1;
     UpdatePin IntermediatePin (\<lambda>pin. pin\<lparr>DefaultValue := DefaultValue src\<rparr>) g2
   }"

definition BreakAllNodeLinks :: "node_ptr \<Rightarrow> UEdGraph \<Rightarrow> UEdGraph option" where
  "BreakAllNodeLinks this g = ForEach BreakAllPinLinks (NodePins g this) g"

subsection \<open>The multiplexer\<close>

text \<open>Modelled from the spec: ``an N-way value selector: given an index and N candidate
  values, outputs the candidate at that index''. A new Select node has two option pins, an
  index pin and a return value pin; \<^verbatim>\<open>AddInputPin\<close> adds one option pin;
  \<^verbatim>\<open>ChangePinType\<close> gives the option pins and the return value pin the type of the pin it
  is handed; when the index pin is linked while its type is unresolved, it takes the type
  of its peer.\<close>

definition Select_OptionPinPrefix :: string where
  "Select_OptionPinPrefix = ''Option ''"

definition Select_GetOptionPins :: "UEdGraph \<Rightarrow> node_ptr \<Rightarrow> pin_ptr list" where
  "Select_GetOptionPins g n =
     filter (PinSatisfies g (\<lambda>pin. StartsWith (PinName pin) Select_OptionPinPrefix)) (NodePins g n)"

definition Select_GetIndexPin :: "UEdGraph \<Rightarrow> node_ptr \<Rightarrow> pin_ptr option" where
  "Select_GetIndexPin g n = FindPin g n ''Index''"

definition PN_ReturnValue :: FName where
  "PN_ReturnValue = ''ReturnValue''"

definition Select_GetReturnValuePin :: "UEdGraph \<Rightarrow> node_ptr \<Rightarrow> pin_ptr option" where
  "Select_GetReturnValuePin g n = FindPin g n PN_ReturnValue"

definition Select_AllocateDefaultPins :: "node_ptr \<Rightarrow> UEdGraph \<Rightarrow> UEdGraph option" where
  "Select_AllocateDefaultPins n g0 = do {
     g1 \<leftarrow> ForEach (\<lambda>Idx g. map_option snd
              (CreatePin n EGPD_Input PC_Wildcard (Select_OptionPinPrefix @ FormatNat Idx) (- 1) g))
            [0 ..< 2] g0;
     (_, g2) \<leftarrow> CreatePin n EGPD_Input PC_Wildcard ''Index'' (- 1) g1;
     (_, g3) \<leftarrow> CreatePin n EGPD_Output PC_Wildcard PN_ReturnValue (- 1) g2;
     Some g3
   }"

definition Select_ChangePinType :: "node_ptr \<Rightarrow> pin_ptr \<Rightarrow> UEdGraph \<Rightarrow> UEdGraph option" where
  "Select_ChangePinType n Pin g0 = do {
     r \<leftarrow> Select_GetReturnValuePin g0 n;
     g1 \<leftarrow> CopyPinType r Pin g0;
     ForEach (\<lambda>OptionPin g. CopyPinType OptionPin Pin g) (Select_GetOptionPins g1 n) g1
   }"

definition Select_AddInputPin :: "node_ptr \<Rightarrow> UEdGraph \<Rightarrow> UEdGraph option" where
  "Select_AddInputPin n g0 = do {
     r \<leftarrow> Select_GetReturnValuePin g0 n;
     (p, g1) \<leftarrow> CreatePin n EGPD_Input PC_Wildcard
                 (Select_OptionPinPrefix @ FormatNat (length (Select_GetOptionPins g0 n))) (- 1) g0;
     CopyPinType p r g1
   }"

definition Select_NotifyPinConnectionListChanged :: "node_ptr \<Rightarrow> pin_ptr \<Rightarrow> UEdGraph \<Rightarrow> UEdGraph option" where
  "Select_NotifyPinConnectionListChanged n Pin g =
     (if Select_GetIndexPin g n = Some Pin then do {
        pin \<leftarrow> PinOf g Pin;
        (case LinkedTo pin of
           [] \<Rightarrow> Some g
         | LinkPin # _ \<Rightarrow>
             if PinCategory (PinType pin) = PC_Wildcard then CopyPinType Pin LinkPin g else Some g)
      }
      else Some g)"

subsection \<open>The array builder\<close>

text \<open>Modelled from the spec: the ``array-builder'' primitive. A new Make Array node has
  its output pin and one element pin; \<^verbatim>\<open>AddInputPin\<close> adds one element pin; the element
  pins are its input pins, in pin order.\<close>

definition MakeArray_OutputPinName :: FName where
  "MakeArray_OutputPinName = ''Array''"

definition MakeArray_GetOutputPin :: "UEdGraph \<Rightarrow> node_ptr \<Rightarrow> pin_ptr option" where
  "MakeArray_GetOutputPin g n = FindPin g n MakeArray_OutputPinName"

definition MakeArray_GetKeyPins :: "UEdGraph \<Rightarrow> node_ptr \<Rightarrow> pin_ptr list" where
  "MakeArray_GetKeyPins g n =
     filter (PinSatisfies g (\<lambda>pin. Direction pin = EGPD_Input)) (NodePins g n)"

definition MakeArray_PinName :: "nat \<Rightarrow> FName" where
  "MakeArray_PinName i = ''['' @ FormatNat i @ '']''"

definition MakeArray_AddInputPin :: "node_ptr \<Rightarrow> UEdGraph \<Rightarrow> UEdGraph option" where
  "MakeArray_AddInputPin n g =
     map_option snd
       (CreatePin n EGPD_Input PC_Wildcard
          (MakeArray_PinName (length (MakeArray_GetKeyPins g n))) (- 1) g)"

definition MakeArray_AllocateDefaultPins :: "node_ptr \<Rightarrow> UEdGraph \<Rightarrow> UEdGraph option" where
  "MakeArray_AllocateDefaultPins n g0 = do {
     (_, g1) \<leftarrow> CreatePinOfType n EGPD_Output ((CategoryType PC_Wildcard)\<lparr>ContainerType := ContainerArray\<rparr>)
                  MakeArray_OutputPinName (- 1) g0;
     MakeArray_AddInputPin n g1
   }"

subsection \<open>Calls of library functions\<close>

text \<open>Modelled from the spec: the ``search'' primitive \<^verbatim>\<open>Array_Find\<close> and the ``equality
  test'' \<^verbatim>\<open>EqualEqual_IntInt\<close>. A call node has one pin for each parameter of its function
  and a return value pin.\<close>

definition FunctionParameters ::
  "FName \<Rightarrow> (FName \<times> EEdGraphPinDirection \<times> FEdGraphPinType) list" where
  "FunctionParameters f =
     (if f = ''Array_Find'' then
        [(''TargetArray'', EGPD_Input, (CategoryType PC_Wildcard)\<lparr>ContainerType := ContainerArray\<rparr>),
         (''ItemToFind'', EGPD_Input, CategoryType PC_Wildcard),
         (PN_ReturnValue, EGPD_Output, CategoryType PC_Int)]
      else if f = ''EqualEqual_IntInt'' then
        [(''A'', EGPD_Input, CategoryType PC_Int),
         (''B'', EGPD_Input, CategoryType PC_Int),
         (PN_ReturnValue, EGPD_Output, CategoryType PC_Boolean)]
      else [])"

definition SetFromFunction :: "node_ptr \<Rightarrow> FName \<Rightarrow> UEdGraph \<Rightarrow> UEdGraph option" where
  "SetFromFunction n f g =
     (case NodeOf g n of
        None \<Rightarrow> None
      | Some nd \<Rightarrow> Some (g\<lparr>node_store := (node_store g)[n := nd\<lparr>NodeClass := K2Node_CallFunction f\<rparr>]\<rparr>))"

definition CallFunction_AllocateDefaultPins :: "node_ptr \<Rightarrow> UEdGraph \<Rightarrow> UEdGraph option" where
  "CallFunction_AllocateDefaultPins n g0 = do {
     nd \<leftarrow> NodeOf g0 n;
     (case NodeClass nd of
        K2Node_CallFunction f \<Rightarrow>
          ForEach (\<lambda>(Name, Dir, Type) g. map_option snd (CreatePinOfType n Dir Type Name (- 1) g))
            (FunctionParameters f) g0
      | _ \<Rightarrow> None)
   }"

definition CallFunction_GetReturnValuePin :: "UEdGraph \<Rightarrow> node_ptr \<Rightarrow> pin_ptr option" where
  "CallFunction_GetReturnValuePin g n = FindPin g n PN_ReturnValue"

section \<open>Expansion\<close>

text \<open>\<^verbatim>\<open>ExpandNode\<close> returns nothing; the model returns, with the new store, the five
  primitive nodes it spawned, so that statements about the subgraph can name them. The
  blocks below are the blocks of the function, in its order and under its comments. The
  two local pin types \<^verbatim>\<open>Select1stPinType\<close> and \<^verbatim>\<open>Select2ndPinType\<close> are written and never
  read, and have no counterpart here.\<close>

record IntermediateNodes =
  Select1stNode :: node_ptr
  Select2ndNode :: node_ptr
  MakeArrayNode :: node_ptr
  ArrayFindNode :: node_ptr
  IntEqualNode :: node_ptr

text \<open>Lines 247--253 for \<^verbatim>\<open>Select1st\<close> and, word for word, lines 255--261 for
  \<^verbatim>\<open>Select2nd\<close>: spawn, \<^verbatim>\<open>AllocateDefaultPins\<close>, \<^verbatim>\<open>ChangePinType(ReferenceOptionPin)\<close> and
  one \<^verbatim>\<open>AddInputPin\<close> for each \<^verbatim>\<open>Index\<close> from 2 below \<^verbatim>\<open>CasePinPairs.Num()\<close>.\<close>

definition SpawnSelect :: "pin_ptr \<Rightarrow> nat \<Rightarrow> UEdGraph \<Rightarrow> (node_ptr \<times> UEdGraph) option" where
  "SpawnSelect ReferenceOptionPin Num g0 = do {
     (Select, g1) \<leftarrow> Some (SpawnIntermediateNode K2Node_Select g0);
     g2 \<leftarrow> Select_AllocateDefaultPins Select g1;
     g3 \<leftarrow> Select_ChangePinType Select ReferenceOptionPin g2;
     g4 \<leftarrow> ForEach (\<lambda>Index g. Select_AddInputPin Select g) [2 ..< Num] g3;
     Some (Select, g4)
   }"

text \<open>Lines 263--268.\<close>

definition SpawnMakeArray :: "nat \<Rightarrow> UEdGraph \<Rightarrow> (node_ptr \<times> UEdGraph) option" where
  "SpawnMakeArray Num g0 = do {
     (MakeArray, g1) \<leftarrow> Some (SpawnIntermediateNode K2Node_MakeArray g0);
     g2 \<leftarrow> MakeArray_AllocateDefaultPins MakeArray g1;
     g3 \<leftarrow> ForEach (\<lambda>Index g. MakeArray_AddInputPin MakeArray g) [1 ..< Num] g2;
     Some (MakeArray, g3)
   }"

text \<open>Lines 270--274 with \<^verbatim>\<open>Array_Find\<close> and lines 276--280 with \<^verbatim>\<open>EqualEqual_IntInt\<close>.\<close>

definition SpawnCallFunction :: "FName \<Rightarrow> UEdGraph \<Rightarrow> (node_ptr \<times> UEdGraph) option" where
  "SpawnCallFunction FunctionName g0 = do {
     (Call, g1) \<leftarrow> Some (SpawnIntermediateNode (K2Node_CallFunction []) g0);
     g2 \<leftarrow> SetFromFunction Call FunctionName g1;
     g3 \<leftarrow> CallFunction_AllocateDefaultPins Call g2;
     Some (Call, g3)
   }"

text \<open>Link between outer and 1st Select.\<close>

definition LinkOuterToSelect1st ::
  "(pin_ptr \<times> pin_ptr) list \<Rightarrow> node_ptr \<Rightarrow> UEdGraph \<Rightarrow> UEdGraph option" where
  "LinkOuterToSelect1st CasePinPairs Select1st g0 =
     (let Select1stOptionPins = Select_GetOptionPins g0 Select1st
      in ForEach (\<lambda>Index g. do {
           Pair \<leftarrow> At CasePinPairs Index;
           OptionPin \<leftarrow> At Select1stOptionPins Index;
           MovePinLinksToIntermediate (fst Pair) OptionPin g
         }) [0 ..< length CasePinPairs] g0)"

text \<open>Link between outer and Make Array.\<close>

definition LinkOuterToMakeArray ::
  "(pin_ptr \<times> pin_ptr) list \<Rightarrow> node_ptr \<Rightarrow> UEdGraph \<Rightarrow> UEdGraph option" where
  "LinkOuterToMakeArray CasePinPairs MakeArray g0 =
     (let KeyPins = MakeArray_GetKeyPins g0 MakeArray
      in ForEach (\<lambda>Index g. do {
           KeyPin \<leftarrow> At KeyPins Index;
           g' \<leftarrow> SetPinCategory KeyPin PC_Boolean g;
           Pair \<leftarrow> At CasePinPairs Index;
           MovePinLinksToIntermediate (snd Pair) KeyPin g'
         }) [0 ..< length CasePinPairs] g0)"

text \<open>Link between Make Array and Array Find.\<close>

definition LinkMakeArrayToArrayFind :: "node_ptr \<Rightarrow> node_ptr \<Rightarrow> UEdGraph \<Rightarrow> UEdGraph option" where
  "LinkMakeArrayToArrayFind MakeArray ArrayFind g0 = do {
     ArrayPin \<leftarrow> MakeArray_GetOutputPin g0 MakeArray;
     TargetArrayPin \<leftarrow> FindPinChecked g0 ArrayFind ''TargetArray'';
     ItemToFindPin \<leftarrow> FindPinChecked g0 ArrayFind ''ItemToFind'';
     g1 \<leftarrow> SetPinCategory ArrayPin PC_Boolean g0;
     g2 \<leftarrow> MakeLinkTo ArrayPin TargetArrayPin g1;
     g3 \<leftarrow> SetPinCategory TargetArrayPin PC_Boolean g2;
     g4 \<leftarrow> SetPinCategory ItemToFindPin PC_Boolean g3;
     TrySetDefaultValue ItemToFindPin ''true'' g4
   }"

text \<open>Link between Array Find and 1st Select.\<close>

definition LinkArrayFindToSelect1st :: "node_ptr \<Rightarrow> node_ptr \<Rightarrow> UEdGraph \<Rightarrow> UEdGraph option" where
  "LinkArrayFindToSelect1st ArrayFind Select1st g0 = do {
     ArrayFindOutputPin \<leftarrow> CallFunction_GetReturnValuePin g0 ArrayFind;
     Select1stIndexPin \<leftarrow> Select_GetIndexPin g0 Select1st;
     g1 \<leftarrow> MakeLinkTo ArrayFindOutputPin Select1stIndexPin g0;
     Select_NotifyPinConnectionListChanged Select1st Select1stIndexPin g1
   }"

text \<open>Link between Array Find and Int Equal.\<close>

definition LinkArrayFindToIntEqual :: "node_ptr \<Rightarrow> node_ptr \<Rightarrow> UEdGraph \<Rightarrow> UEdGraph option" where
  "LinkArrayFindToIntEqual ArrayFind IntEqual g0 = do {
     ArrayFindOutputPin \<leftarrow> CallFunction_GetReturnValuePin g0 ArrayFind;
     IntEqualAPin \<leftarrow> FindPinChecked g0 IntEqual ''A'';
     IntEqualBPin \<leftarrow> FindPinChecked g0 IntEqual ''B'';
     g1 \<leftarrow> MakeLinkTo ArrayFindOutputPin IntEqualAPin g0;
     TrySetDefaultValue IntEqualBPin ''-1'' g1
   }"

text \<open>Link among 1st Select, 2nd Select and Int Equal.\<close>

definition LinkSelectsAndIntEqual ::
  "node_ptr \<Rightarrow> node_ptr \<Rightarrow> node_ptr \<Rightarrow> node_ptr \<Rightarrow> UEdGraph \<Rightarrow> UEdGraph option" where
  "LinkSelectsAndIntEqual this Select1st Select2nd IntEqual g0 = do {
     Select1stReturnValuePin \<leftarrow> Select_GetReturnValuePin g0 Select1st;
     IntEqualReturnValuePin \<leftarrow> CallFunction_GetReturnValuePin g0 IntEqual;
     Select2ndIndexPin \<leftarrow> Select_GetIndexPin g0 Select2nd;
     Select2ndOptionPins \<leftarrow> Some (Select_GetOptionPins g0 Select2nd);
     g1 \<leftarrow> MakeLinkTo IntEqualReturnValuePin Select2ndIndexPin g0;
     g2 \<leftarrow> Select_NotifyPinConnectionListChanged Select2nd Select2ndIndexPin g1;
     Option0 \<leftarrow> At Select2ndOptionPins 0;
     g3 \<leftarrow> MakeLinkTo Select1stReturnValuePin Option0 g2;
     DefaultOptionPin \<leftarrow> GetDefaultOptionPin g3 this;
     Option1 \<leftarrow> At Select2ndOptionPins 1;
     MovePinLinksToIntermediate DefaultOptionPin Option1 g3
   }"

text \<open>Link 2nd Select and outer.\<close>

definition LinkSelect2ndToOuter :: "node_ptr \<Rightarrow> node_ptr \<Rightarrow> UEdGraph \<Rightarrow> UEdGraph option" where
  "LinkSelect2ndToOuter this Select2nd g0 = do {
     Select2ndReturnValuePin \<leftarrow> Select_GetReturnValuePin g0 Select2nd;
     ReturnValuePin \<leftarrow> GetReturnValuePin g0 this;
     MovePinLinksToIntermediate ReturnValuePin Select2ndReturnValuePin g0
   }"

definition ExpandNode :: "node_ptr \<Rightarrow> UEdGraph \<Rightarrow> (IntermediateNodes \<times> UEdGraph) option" where
  "ExpandNode this g0 = do {
     g1 \<leftarrow> Super_ExpandNode this g0;
     ReferencePair \<leftarrow> At (GetCasePinPairs g1 this) 0;
     ReferenceOptionPin \<leftarrow> Some (fst ReferencePair);
     CasePinPairs \<leftarrow> Some (GetCasePinPairs g1 this);
     (Select1st, g2) \<leftarrow> SpawnSelect ReferenceOptionPin (length CasePinPairs) g1;
     (Select2nd, g3) \<leftarrow> SpawnSelect ReferenceOptionPin (length CasePinPairs) g2;
     (MakeArray, g4) \<leftarrow> SpawnMakeArray (length CasePinPairs) g3;
     (ArrayFind, g5) \<leftarrow> SpawnCallFunction ''Array_Find'' g4;
     (IntEqual, g6) \<leftarrow> SpawnCallFunction ''EqualEqual_IntInt'' g5;
     g7 \<leftarrow> LinkOuterToSelect1st CasePinPairs Select1st g6;
     g8 \<leftarrow> LinkOuterToMakeArray CasePinPairs MakeArray g7;
     g9 \<leftarrow> LinkMakeArrayToArrayFind MakeArray ArrayFind g8;
     g10 \<leftarrow> LinkArrayFindToSelect1st ArrayFind Select1st g9;
     g11 \<leftarrow> LinkArrayFindToIntEqual ArrayFind IntEqual g10;
     g12 \<leftarrow> LinkSelectsAndIntEqual this Select1st Select2nd IntEqual g11;
     g13 \<leftarrow> LinkSelect2ndToOuter this Select2nd g12;
     g14 \<leftarrow> BreakAllNodeLinks this g13;
     Some (\<lparr>Select1stNode = Select1st, Select2ndNode = Select2nd, MakeArrayNode = MakeArray,
            ArrayFindNode = ArrayFind, IntEqualNode = IntEqual\<rparr>, g14)
   }"

section \<open>What a graph of primitive nodes computes\<close>

text \<open>Modelled from the spec: the value that a pure subgraph yields at a pin. An input pin
  takes the value of the pin it is linked to, or its literal default when it has no link;
  an output pin takes the value its node computes from the node's input pins. Pins of
  nodes outside the expansion are the runtime inputs: their values are given by \<open>env\<close>.
  The multiplexer's answer to an index outside its options is left to the host; it is the
  parameter \<open>oob\<close>. The search returns ``the smallest index i such that
  \<open>conditions[i] == true\<close>, or a sentinel value \<open>-1\<close> if no such index exists''. The
  recursion follows the links, so it takes fuel: \<open>None\<close> is a graph that was not evaluated
  within the fuel, or that is not well formed.\<close>

datatype kvalue = BoolV bool | IntV int | ArrayV "kvalue list" | LitV string

definition nat_of_string :: "string \<Rightarrow> nat" where
  "nat_of_string s = foldl (\<lambda>a c. 10 * a + (of_char c - 48)) 0 s"

definition int_of_string :: "string \<Rightarrow> int" where
  "int_of_string s =
     (case s of
        [] \<Rightarrow> 0
      | c # r \<Rightarrow> if c = CHR ''-'' then - int (nat_of_string r) else int (nat_of_string s))"

definition LiteralValue :: "FEdGraphPinType \<Rightarrow> string \<Rightarrow> kvalue" where
  "LiteralValue Type s =
     (if PinCategory Type = PC_Boolean then BoolV (s = ''true'')
      else if PinCategory Type = PC_Int then IntV (int_of_string s)
      else LitV s)"

fun Array_Find :: "kvalue list \<Rightarrow> kvalue \<Rightarrow> int" where
  "Array_Find [] ItemToFind = - 1"
| "Array_Find (x # xs) ItemToFind =
     (if x = ItemToFind then 0
      else (let r = Array_Find xs ItemToFind in if r = - 1 then - 1 else r + 1))"

fun EvaluateAll :: "(pin_ptr \<Rightarrow> kvalue option) \<Rightarrow> pin_ptr list \<Rightarrow> kvalue list option" where
  "EvaluateAll ev [] = Some []"
| "EvaluateAll ev (p # ps) =
     (case ev p of
        None \<Rightarrow> None
      | Some v \<Rightarrow> (case EvaluateAll ev ps of None \<Rightarrow> None | Some vs \<Rightarrow> Some (v # vs)))"

definition SelectValue :: "(int \<Rightarrow> kvalue) \<Rightarrow> kvalue \<Rightarrow> kvalue list \<Rightarrow> kvalue option" where
  "SelectValue oob Index Options =
     (case Index of
        BoolV b \<Rightarrow> At Options (if b then 1 else 0)
      | IntV i \<Rightarrow> Some (if 0 \<le> i \<and> i < int (length Options) then Options ! nat i else oob i)
      | _ \<Rightarrow> None)"

definition NodeValue ::
  "(pin_ptr \<Rightarrow> kvalue) \<Rightarrow> (int \<Rightarrow> kvalue) \<Rightarrow> UEdGraph \<Rightarrow> (pin_ptr \<Rightarrow> kvalue option) \<Rightarrow>
   pin_ptr \<Rightarrow> node_ptr \<Rightarrow> kvalue option" where
  "NodeValue env oob g ev p n = do {
     nd \<leftarrow> NodeOf g n;
     (case NodeClass nd of
        K2Node_Other \<Rightarrow> Some (env p)
      | K2Node_MultiConditionalSelect \<Rightarrow> None
      | K2Node_MakeArray \<Rightarrow> map_option ArrayV (EvaluateAll ev (MakeArray_GetKeyPins g n))
      | K2Node_Select \<Rightarrow> do {
          IndexPin \<leftarrow> Select_GetIndexPin g n;
          Index \<leftarrow> ev IndexPin;
          Options \<leftarrow> EvaluateAll ev (Select_GetOptionPins g n);
          SelectValue oob Index Options
        }
      | K2Node_CallFunction f \<Rightarrow>
          if f = ''Array_Find'' then do {
            TargetArrayPin \<leftarrow> FindPin g n ''TargetArray'';
            ItemToFindPin \<leftarrow> FindPin g n ''ItemToFind'';
            TargetArray \<leftarrow> ev TargetArrayPin;
            ItemToFind \<leftarrow> ev ItemToFindPin;
            (case TargetArray of ArrayV xs \<Rightarrow> Some (IntV (Array_Find xs ItemToFind)) | _ \<Rightarrow> None)
          }
          else if f = ''EqualEqual_IntInt'' then do {
            APin \<leftarrow> FindPin g n ''A'';
            BPin \<leftarrow> FindPin g n ''B'';
            A \<leftarrow> ev APin;
            B \<leftarrow> ev BPin;
            (case (A, B) of (IntV a, IntV b) \<Rightarrow> Some (BoolV (a = b)) | _ \<Rightarrow> None)
          }
          else None)
   }"

primrec Evaluate ::
  "(pin_ptr \<Rightarrow> kvalue) \<Rightarrow> (int \<Rightarrow> kvalue) \<Rightarrow> UEdGraph \<Rightarrow> nat \<Rightarrow> pin_ptr \<Rightarrow> kvalue option" where
  "Evaluate env oob g 0 = (\<lambda>p. None)"
| "Evaluate env oob g (Suc fuel) = (\<lambda>p.
     case PinOf g p of
       None \<Rightarrow> None
     | Some pin \<Rightarrow>
         (case Direction pin of
            EGPD_Input \<Rightarrow>
              (case LinkedTo pin of
                 [] \<Rightarrow> Some (LiteralValue (PinType pin) (DefaultValue pin))
               | l # _ \<Rightarrow> Evaluate env oob g fuel l)
          | EGPD_Output \<Rightarrow> NodeValue env oob g (Evaluate env oob g fuel) p (OwningNode pin)))"

section \<open>Notions used in the statements\<close>

text \<open>The names of a node's pins, in ordinal order (\<open>None\<close> for a dangling pointer), and the
  layout that the comment at the head of \<^verbatim>\<open>AllocateDefaultPins\<close> documents for a node with
  \<open>N\<close> case pairs: the default pin, the option pins \<open>0 \<dots> N-1\<close>, the condition pins
  \<open>0 \<dots> N-1\<close>, the return value pin.\<close>

definition PinNames :: "UEdGraph \<Rightarrow> node_ptr \<Rightarrow> FName option list" where
  "PinNames g this = map (\<lambda>p. map_option PinName (PinOf g p)) (NodePins g this)"

definition BlockLayout :: "FName list \<Rightarrow> FName list \<Rightarrow> FName list" where
  "BlockLayout OptionNames ConditionNames =
     [DefaultOptionPinName] @ OptionNames @ ConditionNames @ [ReturnValueOptionPinName]"

definition PinLayout :: "nat \<Rightarrow> FName list" where
  "PinLayout N =
     BlockLayout (map (\<lambda>i. GetCasePinName CaseKeyPinNamePrefix (int i)) [0 ..< N])
       (map (\<lambda>i. GetCasePinName CaseValuePinNamePrefix (int i)) [0 ..< N])"

text \<open>The skeleton of a store: its nodes with their pin arrays, and of every pin the name,
  the direction and the owner. Finding a pin by name or by role reads nothing else.\<close>

definition Skeleton :: "UEdGraph \<Rightarrow> UEdGraphNode list \<times> (FName \<times> EEdGraphPinDirection \<times> node_ptr) list" where
  "Skeleton g = (node_store g, map (\<lambda>pin. (PinName pin, Direction pin, OwningNode pin)) (pin_store g))"

text \<open>A pin with its declared type and its literal default replaced.\<close>

definition Retyped :: "FEdGraphPinType \<Rightarrow> string \<Rightarrow> UEdGraphPin \<Rightarrow> UEdGraphPin" where
  "Retyped T D pin = pin\<lparr>PinType := T, DefaultValue := D\<rparr>"

text \<open>The store \<open>g\<close> is the store \<open>g0\<close> with the pins of \<open>X\<close> retyped to \<open>T\<close> and reset to the
  canonical default of \<open>T\<close>, and nothing else changed.\<close>

definition UnifiedOn :: "pin_ptr set \<Rightarrow> FEdGraphPinType \<Rightarrow> UEdGraph \<Rightarrow> UEdGraph \<Rightarrow> bool" where
  "UnifiedOn X T g0 g \<longleftrightarrow>
     g = g0\<lparr>pin_store :=
             map (\<lambda>q. if q \<in> X then Retyped T (SchemaDefault g0 T) (pin_store g0 ! q)
                       else pin_store g0 ! q)
               [0 ..< length (pin_store g0)]\<rparr>"

text \<open>The two pins that \<^verbatim>\<open>AddCasePinPair\<close> leaves in the store.\<close>

definition CasePin :: "node_ptr \<Rightarrow> string \<Rightarrow> string \<Rightarrow> int \<Rightarrow> FEdGraphPinType \<Rightarrow> UEdGraphPin" where
  "CasePin this Prefix FriendlyPrefix CaseIndex T =
     \<lparr>PinName = GetCasePinName Prefix CaseIndex,
      PinFriendlyName = GetCasePinFriendlyName FriendlyPrefix CaseIndex,
      Direction = EGPD_Input, PinType = T, DefaultValue = [], LinkedTo = [], OwningNode = this\<rparr>"

text \<open>The store \<open>g\<close> is the store \<open>g0\<close> with the pins of \<open>X\<close> retyped to \<open>T\<close>, and nothing else
  changed.\<close>

definition RetypedOn :: "pin_ptr set \<Rightarrow> FEdGraphPinType \<Rightarrow> UEdGraph \<Rightarrow> UEdGraph \<Rightarrow> bool" where
  "RetypedOn X T g0 g \<longleftrightarrow>
     g = g0\<lparr>pin_store :=
             map (\<lambda>q. if q \<in> X then (pin_store g0 ! q)\<lparr>PinType := T\<rparr> else pin_store g0 ! q)
               [0 ..< length (pin_store g0)]\<rparr>"

text \<open>During reconstruction: the store \<open>g\<close> extends the store \<open>g0\<close> by new pins, every pin of
  the node is one of the new pins, and every condition pin among them is boolean.\<close>

definition Rebuilding :: "UEdGraph \<Rightarrow> node_ptr \<Rightarrow> UEdGraph \<Rightarrow> bool" where
  "Rebuilding g0 this g \<longleftrightarrow>
     take (length (pin_store g0)) (pin_store g) = pin_store g0
     \<and> length (pin_store g0) \<le> length (pin_store g)
     \<and> (\<forall>p \<in> set (NodePins g this).
           length (pin_store g0) \<le> p \<and> p < length (pin_store g)
           \<and> (IsCaseValuePin (pin_store g ! p) \<longrightarrow> PinType (pin_store g ! p) = CategoryType PC_Boolean))"

text \<open>A store extended by one new node that owns the new pins \<open>ps\<close>, put at the end of the
  store in order. Spawning a primitive node and allocating its pins goes through stores of
  this form.\<close>

definition WithNode :: "UEdGraph \<Rightarrow> node_class \<Rightarrow> UEdGraphPin list \<Rightarrow> UEdGraph" where
  "WithNode g cls ps =
     g\<lparr>pin_store := pin_store g @ ps,
       node_store := node_store g @
         [\<lparr>NodeClass = cls, Pins = [length (pin_store g) ..< length (pin_store g) + length ps]\<rparr>]\<rparr>"

text \<open>The pins of a spawned Select node with \<open>max 2 N\<close> options of type \<open>T\<close>, of a spawned Make
  Array node with \<open>N\<close> elements, and of a spawned call of a library function.\<close>

definition SelectOptionPin :: "node_ptr \<Rightarrow> FEdGraphPinType \<Rightarrow> nat \<Rightarrow> UEdGraphPin" where
  "SelectOptionPin n T i =
     (NewPin n EGPD_Input (CategoryType PC_Wildcard) (Select_OptionPinPrefix @ FormatNat i))\<lparr>PinType := T\<rparr>"

definition SelectPins :: "node_ptr \<Rightarrow> FEdGraphPinType \<Rightarrow> nat \<Rightarrow> UEdGraphPin list" where
  "SelectPins n T N =
     [SelectOptionPin n T 0, SelectOptionPin n T 1,
      NewPin n EGPD_Input (CategoryType PC_Wildcard) ''Index'',
      (NewPin n EGPD_Output (CategoryType PC_Wildcard) PN_ReturnValue)\<lparr>PinType := T\<rparr>]
     @ map (SelectOptionPin n T) [2 ..< N]"

definition MakeArrayPins :: "node_ptr \<Rightarrow> nat \<Rightarrow> UEdGraphPin list" where
  "MakeArrayPins n N =
     NewPin n EGPD_Output ((CategoryType PC_Wildcard)\<lparr>ContainerType := ContainerArray\<rparr>) MakeArray_OutputPinName
     # map (\<lambda>i. NewPin n EGPD_Input (CategoryType PC_Wildcard) (MakeArray_PinName i)) [0 ..< N]"

definition CallFunctionPins :: "node_ptr \<Rightarrow> FName \<Rightarrow> UEdGraphPin list" where
  "CallFunctionPins n f = map (\<lambda>(Name, Dir, Type). NewPin n Dir Type Name) (FunctionParameters f)"

text \<open>The store \<open>g'\<close> is a rewiring of the store \<open>g\<close> within the pins \<open>S\<close>: the same nodes, the
  same pins with the same names, directions and owners, and outside \<open>S\<close> no pin changed.\<close>

definition Rewiring :: "pin_ptr set \<Rightarrow> UEdGraph \<Rightarrow> UEdGraph \<Rightarrow> bool" where
  "Rewiring S g g' \<longleftrightarrow>
     (\<exists>ps. g' = g\<lparr>pin_store := ps\<rparr> \<and> length ps = length (pin_store g)
        \<and> (\<forall>q < length ps.
              PinName (ps ! q) = PinName (pin_store g ! q)
              \<and> Direction (ps ! q) = Direction (pin_store g ! q)
              \<and> OwningNode (ps ! q) = OwningNode (pin_store g ! q)
              \<and> (q \<notin> S \<longrightarrow> ps ! q = pin_store g ! q)))"


text \<open>The store \<open>h\<close> extends the store \<open>g\<close>: it has the pins and the nodes of \<open>g\<close> at their
  addresses, and more pins and nodes after them.\<close>

definition Extends :: "UEdGraph \<Rightarrow> UEdGraph \<Rightarrow> bool" where
  "Extends g h \<longleftrightarrow>
     (\<exists>ps ns. h = g\<lparr>pin_store := pin_store g @ ps, node_store := node_store g @ ns\<rparr>)"

text \<open>The store after the five primitive nodes of the expansion have been spawned and have
  allocated their pins, before any link is made: \<open>T\<close> is the type of the reference option
  pin and \<open>N\<close> the number of case pairs. The five definitions before it are the addresses
  of the first pin of each node.\<close>

definition Select1stBase :: "UEdGraph \<Rightarrow> pin_ptr" where
  "Select1stBase g = length (pin_store g)"

definition Select2ndBase :: "UEdGraph \<Rightarrow> nat \<Rightarrow> pin_ptr" where
  "Select2ndBase g N = Select1stBase g + (4 + (N - 2))"

definition MakeArrayBase :: "UEdGraph \<Rightarrow> nat \<Rightarrow> pin_ptr" where
  "MakeArrayBase g N = Select2ndBase g N + (4 + (N - 2))"

definition ArrayFindBase :: "UEdGraph \<Rightarrow> nat \<Rightarrow> pin_ptr" where
  "ArrayFindBase g N = MakeArrayBase g N + Suc N"

definition IntEqualBase :: "UEdGraph \<Rightarrow> nat \<Rightarrow> pin_ptr" where
  "IntEqualBase g N = ArrayFindBase g N + 3"

definition Spawned :: "UEdGraph \<Rightarrow> FEdGraphPinType \<Rightarrow> nat \<Rightarrow> UEdGraph" where
  "Spawned g T N =
     (let M = length (node_store g);
          g2 = WithNode g K2Node_Select (SelectPins M T N);
          g3 = WithNode g2 K2Node_Select (SelectPins (M + 1) T N);
          g4 = WithNode g3 K2Node_MakeArray (MakeArrayPins (M + 2) N);
          g5 = WithNode g4 (K2Node_CallFunction ''Array_Find'') (CallFunctionPins (M + 3) ''Array_Find'')
      in WithNode g5 (K2Node_CallFunction ''EqualEqual_IntInt'')
           (CallFunctionPins (M + 4) ''EqualEqual_IntInt''))"

text \<open>The option pin of index \<open>i\<close> of a Select node whose pins start at the address \<open>B\<close>.\<close>

definition SelectOptionAt :: "pin_ptr \<Rightarrow> nat \<Rightarrow> pin_ptr" where
  "SelectOptionAt B i = (if i < 2 then B + i else B + 2 + i)"

text \<open>A node with \<open>N\<close> case pairs as the editor keeps it: the pins in the documented layout,
  no pin twice; every link of a pin of the node kept once and leading to a pin of another
  node; every link of an input pin leading to an output pin of a node outside the
  expansion; the default pin and the option pins of one type and the condition pins
  boolean.\<close>

definition WellFormedNode :: "UEdGraph \<Rightarrow> node_ptr \<Rightarrow> nat \<Rightarrow> bool" where
  "WellFormedNode g this N \<longleftrightarrow>
     PinNames g this = map Some (PinLayout N)
     \<and> distinct (NodePins g this)
     \<and> (\<forall>p \<in> set (NodePins g this).
           distinct (LinkedTo (pin_store g ! p))
           \<and> (\<forall>l \<in> set (LinkedTo (pin_store g ! p)).
                 l < length (pin_store g) \<and> l \<notin> set (NodePins g this)
                 \<and> (PinName (pin_store g ! p) \<noteq> ReturnValueOptionPinName \<longrightarrow>
                      Direction (pin_store g ! l) = EGPD_Output
                      \<and> map_option NodeClass (NodeOf g (OwningNode (pin_store g ! l))) = Some K2Node_Other)))
     \<and> (\<forall>k \<in> set (CaseKeyPins g this).
           map_option (\<lambda>d. PinType (pin_store g ! d)) (GetDefaultOptionPin g this)
             = Some (PinType (pin_store g ! k)))
     \<and> (\<forall>v \<in> set (CaseValuePins g this). PinCategory (PinType (pin_store g ! v)) = PC_Boolean)"

text \<open>Modelled from the spec: the node ``evaluates to the first option whose paired
  condition is true, falling back to the default''. The value at an input pin of the node
  is the value of the output pin it is linked to, or its literal default when it has no
  link.\<close>

definition InputValue :: "(pin_ptr \<Rightarrow> kvalue) \<Rightarrow> UEdGraph \<Rightarrow> pin_ptr \<Rightarrow> kvalue" where
  "InputValue env g p =
     (let pin = pin_store g ! p
      in case LinkedTo pin of
           [] \<Rightarrow> LiteralValue (PinType pin) (DefaultValue pin)
         | l # _ \<Rightarrow> env l)"

definition FirstTrueOption :: "(pin_ptr \<Rightarrow> kvalue) \<Rightarrow> UEdGraph \<Rightarrow> node_ptr \<Rightarrow> kvalue option" where
  "FirstTrueOption env g this =
     (case find (\<lambda>CasePair. InputValue env g (snd CasePair) = BoolV True) (GetCasePinPairs g this) of
        Some CasePair \<Rightarrow> Some (InputValue env g (fst CasePair))
      | None \<Rightarrow> map_option (InputValue env g) (GetDefaultOptionPin g this))"

text \<open>The names of a node's pins, in ordinal order, and the number of its case pairs, after
  an operation that returns a result together with the new store; \<open>None\<close> when the operation
  failed.\<close>

definition LayoutAfter :: "node_ptr \<Rightarrow> ('a \<times> UEdGraph) option \<Rightarrow> FName option list option" where
  "LayoutAfter this r = map_option (\<lambda>x. PinNames (snd x) this) r"

definition CasePinCountAfter :: "node_ptr \<Rightarrow> ('a \<times> UEdGraph) option \<Rightarrow> nat option" where
  "CasePinCountAfter this r = map_option (\<lambda>x. GetCasePinCount (snd x) this) r"
section \<open>An example graph\<close>

text \<open>A node with two case pairs in the documented layout, every pin linked to a pin of one
  other node: the default pin and the two option pins to integer outputs, the condition
  pins to boolean outputs, the return value pin to an integer input. \<open>Category\<close> is the type
  category of the node's default, option and return value pins: \<open>PC_Wildcard\<close> before the
  type unification, a concrete category after it.\<close>

definition ExamplePin ::
  "FName \<Rightarrow> EEdGraphPinDirection \<Rightarrow> FName \<Rightarrow> pin_ptr list \<Rightarrow> node_ptr \<Rightarrow> UEdGraphPin" where
  "ExamplePin Name Dir Category Links Owner =
     \<lparr>PinName = Name, PinFriendlyName = [], Direction = Dir, PinType = CategoryType Category,
      DefaultValue = [], LinkedTo = Links, OwningNode = Owner\<rparr>"

definition ExampleGraph :: "FName \<Rightarrow> UEdGraph" where
  "ExampleGraph Category =
     \<lparr>pin_store =
        [ExamplePin ''Default'' EGPD_Input Category [6] 0,
         ExamplePin ''CaseOption0'' EGPD_Input Category [7] 0,
         ExamplePin ''CaseOption1'' EGPD_Input Category [8] 0,
         ExamplePin ''CaseCondition0'' EGPD_Input PC_Boolean [9] 0,
         ExamplePin ''CaseCondition1'' EGPD_Input PC_Boolean [10] 0,
         ExamplePin ''Return Value'' EGPD_Output Category [11] 0,
         ExamplePin ''Fallback'' EGPD_Output PC_Int [0] 1,
         ExamplePin ''First'' EGPD_Output PC_Int [1] 1,
         ExamplePin ''Second'' EGPD_Output PC_Int [2] 1,
         ExamplePin ''FirstFlag'' EGPD_Output PC_Boolean [3] 1,
         ExamplePin ''SecondFlag'' EGPD_Output PC_Boolean [4] 1,
         ExamplePin ''Result'' EGPD_Input PC_Int [5] 1],
      node_store =
        [\<lparr>NodeClass = K2Node_MultiConditionalSelect, Pins = [0, 1, 2, 3, 4, 5]\<rparr>,
         \<lparr>NodeClass = K2Node_Other, Pins = [6, 7, 8, 9, 10, 11]\<rparr>],
      SchemaDefault = (\<lambda>T. if PinCategory T = PC_Boolean then ''false''
                          else if PinCategory T = PC_Int then ''0'' else []),
      bBlueprintModified = False,
      NumBroadcasts = 0\<rparr>"

text \<open>A store with one node that has no pins yet.\<close>

definition FreshNodeGraph :: UEdGraph where
  "FreshNodeGraph =
     \<lparr>pin_store = [],
      node_store = [\<lparr>NodeClass = K2Node_MultiConditionalSelect, Pins = []\<rparr>],
      SchemaDefault = (\<lambda>T. []),
      bBlueprintModified = False,
      NumBroadcasts = 0\<rparr>"

section \<open>Facts about the store and the lookups\<close>

subsection \<open>The store\<close>

lemma PinOf_eq_Some: "PinOf g p = Some x \<longleftrightarrow> p < length (pin_store g) \<and> pin_store g ! p = x"
  by (auto simp: PinOf_def split: if_splits)

lemma PinOf_eq_None: "PinOf g p = None \<longleftrightarrow> length (pin_store g) \<le> p"
  by (auto simp: PinOf_def)

lemma UpdatePin_eq_Some:
  "UpdatePin p f g = Some g' \<longleftrightarrow>
     p < length (pin_store g) \<and> g' = g\<lparr>pin_store := (pin_store g)[p := f (pin_store g ! p)]\<rparr>"
  by (auto simp: UpdatePin_def)

lemma UpdatePin_PinOf:
  "PinOf g p = Some x \<Longrightarrow> UpdatePin p f g = Some (g\<lparr>pin_store := (pin_store g)[p := f x]\<rparr>)"
  by (auto simp: UpdatePin_def PinOf_def split: if_splits)

lemma PinOf_after_update:
  "PinOf (g\<lparr>pin_store := (pin_store g)[p := y]\<rparr>) q =
     (if q = p \<and> p < length (pin_store g) then Some y else PinOf g q)"
  by (auto simp: PinOf_def)

lemma NodeOf_pin_store_update [simp]: "NodeOf (g\<lparr>pin_store := ps\<rparr>) = NodeOf g"
  by (rule ext) (simp add: NodeOf_def)

lemma NodePins_pin_store_update [simp]: "NodePins (g\<lparr>pin_store := ps\<rparr>) = NodePins g"
  by (rule ext) (simp add: NodePins_def)

lemma CopyPinType_PinOf:
  "PinOf g P = Some x \<Longrightarrow> PinOf g Q = Some y \<Longrightarrow>
   CopyPinType P Q g = Some (g\<lparr>pin_store := (pin_store g)[P := x\<lparr>PinType := PinType y\<rparr>]\<rparr>)"
  by (simp add: CopyPinType_def UpdatePin_PinOf)

lemma Reset_PinOf:
  "PinOf g P = Some x \<Longrightarrow>
   ResetPinToAutogeneratedDefaultValue P g =
     Some (g\<lparr>pin_store := (pin_store g)[P := x\<lparr>DefaultValue := SchemaDefault g (PinType x)\<rparr>]\<rparr>)"
  by (simp add: ResetPinToAutogeneratedDefaultValue_def UpdatePin_PinOf)

subsection \<open>Lookups read the skeleton only\<close>

lemma Skeleton_NodeOf: "Skeleton g' = Skeleton g \<Longrightarrow> NodeOf g' = NodeOf g"
  by (rule ext) (simp add: Skeleton_def NodeOf_def)

lemma Skeleton_NodePins:
  assumes "Skeleton g' = Skeleton g"
  shows "NodePins g' = NodePins g"
  by (rule ext) (simp add: NodePins_def Skeleton_NodeOf [OF assms])

lemma Skeleton_length:
  assumes "Skeleton g' = Skeleton g"
  shows "length (pin_store g') = length (pin_store g)"
proof -
  let ?k = "\<lambda>pin. (PinName pin, Direction pin, OwningNode pin)"
  have "map ?k (pin_store g') = map ?k (pin_store g)"
    using assms by (simp add: Skeleton_def)
  then have "length (map ?k (pin_store g')) = length (map ?k (pin_store g))"
    by (rule arg_cong)
  then show ?thesis
    by simp
qed

lemma Skeleton_nth:
  assumes "Skeleton g' = Skeleton g" "p < length (pin_store g)"
  shows "PinName (pin_store g' ! p) = PinName (pin_store g ! p)"
    and "Direction (pin_store g' ! p) = Direction (pin_store g ! p)"
    and "OwningNode (pin_store g' ! p) = OwningNode (pin_store g ! p)"
proof -
  let ?k = "\<lambda>pin. (PinName pin, Direction pin, OwningNode pin)"
  have eq: "map ?k (pin_store g') = map ?k (pin_store g)"
    using assms(1) by (simp add: Skeleton_def)
  have len: "length (pin_store g') = length (pin_store g)"
    using assms(1) by (rule Skeleton_length)
  have "map ?k (pin_store g') ! p = map ?k (pin_store g) ! p"
    using eq by simp
  then have "?k (pin_store g' ! p) = ?k (pin_store g ! p)"
    using assms(2) len by simp
  then show "PinName (pin_store g' ! p) = PinName (pin_store g ! p)"
    and "Direction (pin_store g' ! p) = Direction (pin_store g ! p)"
    and "OwningNode (pin_store g' ! p) = OwningNode (pin_store g ! p)"
    by simp_all
qed

lemma Skeleton_PinSatisfies:
  assumes "Skeleton g' = Skeleton g"
  shows "PinSatisfies g' (\<lambda>pin. Q (PinName pin) (Direction pin) (OwningNode pin)) =
         PinSatisfies g (\<lambda>pin. Q (PinName pin) (Direction pin) (OwningNode pin))"
proof (rule ext)
  fix p
  show "PinSatisfies g' (\<lambda>pin. Q (PinName pin) (Direction pin) (OwningNode pin)) p =
        PinSatisfies g (\<lambda>pin. Q (PinName pin) (Direction pin) (OwningNode pin)) p"
    using Skeleton_nth [OF assms, of p] Skeleton_length [OF assms]
    by (simp add: PinSatisfies_def PinOf_def)
qed

lemma Skeleton_FindPin:
  assumes "Skeleton g' = Skeleton g"
  shows "FindPin g' this Name = FindPin g this Name"
  using Skeleton_PinSatisfies [OF assms, of "\<lambda>n d w. n = Name"]
  by (simp add: FindPin_def Skeleton_NodePins [OF assms])

lemma Skeleton_CaseKeyPins:
  assumes "Skeleton g' = Skeleton g"
  shows "CaseKeyPins g' this = CaseKeyPins g this"
  using Skeleton_PinSatisfies [OF assms, of "\<lambda>n d w. StartsWith n CaseKeyPinNamePrefix"]
  by (simp add: CaseKeyPins_def IsCaseKeyPin_def [abs_def] Skeleton_NodePins [OF assms])

lemma Skeleton_CaseValuePins:
  assumes "Skeleton g' = Skeleton g"
  shows "CaseValuePins g' this = CaseValuePins g this"
  using Skeleton_PinSatisfies [OF assms, of "\<lambda>n d w. StartsWith n CaseValuePinNamePrefix"]
  by (simp add: CaseValuePins_def IsCaseValuePin_def [abs_def] Skeleton_NodePins [OF assms])

lemma Skeleton_GetCasePinPairs:
  assumes "Skeleton g' = Skeleton g"
  shows "GetCasePinPairs g' this = GetCasePinPairs g this"
  by (simp add: GetCasePinPairs_def Skeleton_CaseKeyPins [OF assms] Skeleton_CaseValuePins [OF assms])

lemma Skeleton_update:
  assumes "PinOf g p = Some x" "PinName y = PinName x" "Direction y = Direction x"
    "OwningNode y = OwningNode x"
  shows "Skeleton (g\<lparr>pin_store := (pin_store g)[p := y]\<rparr>) = Skeleton g"
proof -
  let ?k = "\<lambda>pin. (PinName pin, Direction pin, OwningNode pin)"
  have p: "p < length (pin_store g)" and x: "pin_store g ! p = x"
    using assms(1) by (simp_all add: PinOf_eq_Some)
  have "?k y = map ?k (pin_store g) ! p"
    using p x assms(2-4) by simp
  then have "(map ?k (pin_store g))[p := ?k y] = map ?k (pin_store g)"
    by (simp only: list_update_id)
  then have "map ?k ((pin_store g)[p := y]) = map ?k (pin_store g)"
    by (simp only: map_update)
  then show ?thesis
    by (simp add: Skeleton_def)
qed

section \<open>The pin layout and the types of a new case pair\<close>

subsection \<open>Creating a pin\<close>

lemma CreatePinOfType_result:
  assumes "NodeOf g this = Some nd"
  shows "CreatePinOfType this Dir T Name Index g =
     Some (length (pin_store g),
           g\<lparr>pin_store := pin_store g @ [NewPin this Dir T Name],
             node_store := (node_store g)[this := nd\<lparr>Pins := InsertOrAdd Index (length (pin_store g)) (Pins nd)\<rparr>]\<rparr>)"
  using assms by (simp add: CreatePinOfType_def Let_def)

lemma map_InsertOrAdd: "map f (InsertOrAdd i x xs) = InsertOrAdd i (f x) (map f xs)"
  by (simp add: InsertOrAdd_def take_map drop_map)

lemma length_InsertOrAdd [simp]: "length (InsertOrAdd i x xs) = Suc (length xs)"
  by (auto simp: InsertOrAdd_def)

lemma set_InsertOrAdd [simp]: "set (InsertOrAdd i x xs) = insert x (set xs)"
proof (cases "0 \<le> i \<and> i < int (length xs)")
  case True
  have "set (take (nat i) xs) \<union> set (drop (nat i) xs) = set xs"
    by (metis append_take_drop_id set_append)
  then show ?thesis
    using True by (auto simp: InsertOrAdd_def)
next
  case False
  then show ?thesis
    by (auto simp: InsertOrAdd_def)
qed

lemma filter_InsertOrAdd_False: "\<not> Q x \<Longrightarrow> filter Q (InsertOrAdd i x xs) = filter Q xs"
proof -
  assume "\<not> Q x"
  moreover have "filter Q (take (nat i) xs) @ filter Q (drop (nat i) xs) = filter Q xs"
    by (metis append_take_drop_id filter_append)
  ultimately show ?thesis
    by (simp add: InsertOrAdd_def)
qed

lemma length_filter_InsertOrAdd:
  "length (filter Q (InsertOrAdd i x xs)) = length (filter Q xs) + (if Q x then 1 else 0)"
proof -
  have "length (filter Q (take (nat i) xs)) + length (filter Q (drop (nat i) xs)) = length (filter Q xs)"
    by (metis append_take_drop_id filter_append length_append)
  then show ?thesis
    by (auto simp: InsertOrAdd_def)
qed


subsection \<open>Adding a case pair\<close>

lemma NodeOf_eq_Some: "NodeOf g n = Some nd \<longleftrightarrow> n < length (node_store g) \<and> node_store g ! n = nd"
  by (auto simp: NodeOf_def split: if_splits)

lemma PinOf_Some_iff: "PinOf g p = Some x \<longleftrightarrow> p < length (pin_store g) \<and> pin_store g ! p = x"
  by (auto simp: PinOf_def split: if_splits)

lemma FindPin_Some_valid:
  assumes "FindPin g this Name = Some p"
  shows "p < length (pin_store g)" and "PinName (pin_store g ! p) = Name"
    and "NodeOf g this \<noteq> None"
  using assms
  by (auto simp: FindPin_def find_Some_iff PinSatisfies_def NodePins_def PinOf_Some_iff
      split: option.splits)

lemma AddCasePinPair_result:
  assumes d: "GetDefaultOptionPin g this = Some d"
    and nd: "NodeOf g this = Some nd"
  shows "AddCasePinPair this CaseIndex g =
     Some ((length (pin_store g), Suc (length (pin_store g))),
           g\<lparr>pin_store := pin_store g @
               [CasePin this CaseKeyPinNamePrefix CaseKeyPinFriendlyNamePrefix CaseIndex
                  (PinType (pin_store g ! d)),
                CasePin this CaseValuePinNamePrefix CaseValuePinFriendlyNamePrefix CaseIndex
                  (CategoryType PC_Boolean)],
             node_store := (node_store g)[this := nd\<lparr>Pins :=
               InsertOrAdd (int (GetCasePinCount g this) + 2 + CaseIndex) (Suc (length (pin_store g)))
                 (InsertOrAdd (1 + CaseIndex) (length (pin_store g)) (Pins nd))\<rparr>]\<rparr>)"
proof -
  have dv: "d < length (pin_store g)"
    using FindPin_Some_valid(1) [OF d [unfolded GetDefaultOptionPin_def]] .
  have n: "this < length (node_store g)" "node_store g ! this = nd"
    using nd by (simp_all add: NodeOf_eq_Some)
  show ?thesis
    using d dv n
    by (simp add: AddCasePinPair_def CreatePin_def CreatePinOfType_def Let_def NodeOf_def
        UpdatePin_def CopyPinType_def PinOf_def nth_append list_update_append CasePin_def
        NewPin_def)
qed

subsection \<open>The names of the pins\<close>

lemma NodeOf_after_node_update:
  "NodeOf (g\<lparr>pin_store := ps, node_store := (node_store g)[this := nd']\<rparr>) n =
     (if n = this \<and> this < length (node_store g) then Some nd' else NodeOf g n)"
  by (auto simp: NodeOf_def)

lemma PinNames_valid:
  assumes "PinNames g this = map Some ns"
  shows "\<forall>p \<in> set (NodePins g this). p < length (pin_store g)"
proof
  fix p assume "p \<in> set (NodePins g this)"
  then have "map_option PinName (PinOf g p) \<in> set (PinNames g this)"
    by (simp add: PinNames_def)
  then have "map_option PinName (PinOf g p) \<noteq> None"
    using assms by auto
  then show "p < length (pin_store g)"
    by (simp add: PinOf_def split: if_splits)
qed

lemma PinNames_after_create:
  assumes nd: "NodeOf g this = Some nd"
    and valid: "\<forall>p \<in> set (Pins nd). p < length (pin_store g)"
  shows "PinNames (g\<lparr>pin_store := pin_store g @ [pin],
                     node_store := (node_store g)[this := nd\<lparr>Pins := InsertOrAdd Index (length (pin_store g)) (Pins nd)\<rparr>]\<rparr>) this
         = InsertOrAdd Index (Some (PinName pin)) (PinNames g this)"
proof -
  let ?g' = "g\<lparr>pin_store := pin_store g @ [pin],
                     node_store := (node_store g)[this := nd\<lparr>Pins := InsertOrAdd Index (length (pin_store g)) (Pins nd)\<rparr>]\<rparr>"
  have n: "this < length (node_store g)"
    using nd by (simp add: NodeOf_eq_Some)
  have pins': "NodePins ?g' this = InsertOrAdd Index (length (pin_store g)) (Pins nd)"
    using n by (simp add: NodePins_def NodeOf_def)
  have pins: "NodePins g this = Pins nd"
    using nd by (simp add: NodePins_def)
  have old: "map (\<lambda>p. map_option PinName (PinOf ?g' p)) (Pins nd)
      = map (\<lambda>p. map_option PinName (PinOf g p)) (Pins nd)"
    using valid by (intro map_cong) (auto simp: PinOf_def nth_append)
  have new: "map_option PinName (PinOf ?g' (length (pin_store g))) = Some (PinName pin)"
    by (simp add: PinOf_def)
  show ?thesis
    by (simp add: PinNames_def pins pins' map_InsertOrAdd old new)
qed

lemma CreatePin_PinNames:
  assumes nd: "NodeOf g this = Some nd"
    and valid: "\<forall>p \<in> set (Pins nd). p < length (pin_store g)"
  shows "\<exists>p g'. CreatePin this Dir C Name Index g = Some (p, g')
           \<and> PinNames g' this = InsertOrAdd Index (Some Name) (PinNames g this)"
  using PinNames_after_create [OF nd valid, of Index "NewPin this Dir (CategoryType C) Name"]
  by (simp add: CreatePin_def CreatePinOfType_result [OF nd] NewPin_def)

lemma GetCasePinCount_PinNames:
  assumes "PinNames g this = map Some ns"
  shows "GetCasePinCount g this = length (filter (\<lambda>s. StartsWith s CaseKeyPinNamePrefix) ns)"
proof -
  let ?Q = "\<lambda>n. case n of None \<Rightarrow> False | Some s \<Rightarrow> StartsWith s CaseKeyPinNamePrefix"
  have "PinSatisfies g IsCaseKeyPin = ?Q \<circ> (\<lambda>p. map_option PinName (PinOf g p))"
    by (rule ext) (simp add: PinSatisfies_def IsCaseKeyPin_def split: option.splits)
  then have "GetCasePinCount g this = length (filter ?Q (PinNames g this))"
    by (simp add: GetCasePinCount_def CaseKeyPins_def PinNames_def filter_map)
  also have "\<dots> = length (filter (?Q \<circ> Some) ns)"
    by (simp add: assms filter_map)
  finally show ?thesis
    by (simp add: comp_def)
qed

lemma GetDefaultOptionPin_PinNames:
  assumes "PinNames g this = map Some ns" "DefaultOptionPinName \<in> set ns"
  shows "\<exists>d. GetDefaultOptionPin g this = Some d"
proof -
  have "Some DefaultOptionPinName \<in> set (PinNames g this)"
    using assms by simp
  then have "Some DefaultOptionPinName \<in> (\<lambda>p. map_option PinName (PinOf g p)) ` set (NodePins g this)"
    by (simp add: PinNames_def)
  then obtain p where p: "p \<in> set (NodePins g this)"
    "Some DefaultOptionPinName = map_option PinName (PinOf g p)"
    by blast
  then have "PinSatisfies g (\<lambda>pin. PinName pin = DefaultOptionPinName) p"
    by (cases "PinOf g p") (auto simp: PinSatisfies_def)
  with p(1) have "find (PinSatisfies g (\<lambda>pin. PinName pin = DefaultOptionPinName)) (NodePins g this) \<noteq> None"
    by (auto simp: find_None_iff)
  then show ?thesis
    by (auto simp: GetDefaultOptionPin_def FindPin_def)
qed

lemma AddCasePinPair_PinNames:
  assumes names: "PinNames g this = map Some ns" and dflt: "DefaultOptionPinName \<in> set ns"
  shows "\<exists>pair g'. AddCasePinPair this CaseIndex g = Some (pair, g')
           \<and> PinNames g' this =
               map Some (InsertOrAdd
                 (int (length (filter (\<lambda>s. StartsWith s CaseKeyPinNamePrefix) ns)) + 2 + CaseIndex)
                 (GetCasePinName CaseValuePinNamePrefix CaseIndex)
                 (InsertOrAdd (1 + CaseIndex) (GetCasePinName CaseKeyPinNamePrefix CaseIndex) ns))"
proof -
  obtain d where d: "GetDefaultOptionPin g this = Some d"
    using GetDefaultOptionPin_PinNames [OF assms] by blast
  obtain nd where nd: "NodeOf g this = Some nd"
    using FindPin_Some_valid(3) [OF d [unfolded GetDefaultOptionPin_def]] by blast
  have pins: "NodePins g this = Pins nd"
    using nd by (simp add: NodePins_def)
  have valid: "\<forall>p \<in> set (Pins nd). p < length (pin_store g)"
    using PinNames_valid [OF names] pins by simp
  let ?k = "length (pin_store g)"
  let ?key = "CasePin this CaseKeyPinNamePrefix CaseKeyPinFriendlyNamePrefix CaseIndex (PinType (pin_store g ! d))"
  let ?val = "CasePin this CaseValuePinNamePrefix CaseValuePinFriendlyNamePrefix CaseIndex (CategoryType PC_Boolean)"
  let ?N = "int (GetCasePinCount g this)"
  let ?nd1 = "nd\<lparr>Pins := InsertOrAdd (1 + CaseIndex) ?k (Pins nd)\<rparr>"
  let ?g1 = "g\<lparr>pin_store := pin_store g @ [?key], node_store := (node_store g)[this := ?nd1]\<rparr>"
  let ?g2 = "?g1\<lparr>pin_store := pin_store ?g1 @ [?val],
      node_store := (node_store ?g1)[this := ?nd1\<lparr>Pins := InsertOrAdd (?N + 2 + CaseIndex) (length (pin_store ?g1)) (Pins ?nd1)\<rparr>]\<rparr>"
  have n: "this < length (node_store g)"
    using nd by (simp add: NodeOf_eq_Some)
  have n1: "PinNames ?g1 this = InsertOrAdd (1 + CaseIndex) (Some (PinName ?key)) (PinNames g this)"
    by (rule PinNames_after_create [OF nd valid])
  have nd1: "NodeOf ?g1 this = Some ?nd1"
    using n by (simp add: NodeOf_def)
  have valid1: "\<forall>p \<in> set (Pins ?nd1). p < length (pin_store ?g1)"
    using valid by (auto simp: less_Suc_eq)
  have n2: "PinNames ?g2 this = InsertOrAdd (?N + 2 + CaseIndex) (Some (PinName ?val)) (PinNames ?g1 this)"
    by (rule PinNames_after_create [OF nd1 valid1])
  have res: "AddCasePinPair this CaseIndex g = Some ((?k, Suc ?k), ?g2)"
    using n by (simp add: AddCasePinPair_result [OF d nd])
  have "PinNames ?g2 this = map Some (InsertOrAdd (?N + 2 + CaseIndex)
                 (GetCasePinName CaseValuePinNamePrefix CaseIndex)
                 (InsertOrAdd (1 + CaseIndex) (GetCasePinName CaseKeyPinNamePrefix CaseIndex) ns))"
    by (simp only: n2 n1 names map_InsertOrAdd) (simp add: CasePin_def)
  then show ?thesis
    using res GetCasePinCount_PinNames [OF names] by simp
qed

subsection \<open>The documented layout\<close>

lemma StartsWith_append [simp]: "StartsWith (pre @ s) pre"
  by (simp add: StartsWith_def)

lemma key_name_is_key [simp]: "StartsWith (GetCasePinName CaseKeyPinNamePrefix i) CaseKeyPinNamePrefix"
  by (simp add: GetCasePinName_def)

lemma value_name_not_key [simp]: "\<not> StartsWith (GetCasePinName CaseValuePinNamePrefix i) CaseKeyPinNamePrefix"
  by (simp add: GetCasePinName_def StartsWith_def CaseValuePinNamePrefix_def CaseKeyPinNamePrefix_def)

lemma fixed_names_not_key [simp]:
  "\<not> StartsWith DefaultOptionPinName CaseKeyPinNamePrefix"
  "\<not> StartsWith ReturnValueOptionPinName CaseKeyPinNamePrefix"
  by (simp_all add: StartsWith_def DefaultOptionPinName_def ReturnValueOptionPinName_def
      CaseKeyPinNamePrefix_def)

lemma length_PinLayout [simp]: "length (PinLayout N) = 2 * N + 2"
  by (simp add: PinLayout_def BlockLayout_def)

lemma PinLayout_keycount:
  "length (filter (\<lambda>s. StartsWith s CaseKeyPinNamePrefix) (PinLayout N)) = N"
proof -
  have "filter (\<lambda>s. StartsWith s CaseKeyPinNamePrefix)
          (map (\<lambda>i. GetCasePinName CaseKeyPinNamePrefix (int i)) [0 ..< N])
        = map (\<lambda>i. GetCasePinName CaseKeyPinNamePrefix (int i)) [0 ..< N]"
    by (rule filter_True) auto
  moreover have "filter (\<lambda>s. StartsWith s CaseKeyPinNamePrefix)
          (map (\<lambda>i. GetCasePinName CaseValuePinNamePrefix (int i)) [0 ..< N]) = []"
    by (rule filter_False) auto
  ultimately show ?thesis
    by (simp add: PinLayout_def BlockLayout_def)
qed

lemma PinLayout_Suc:
  "InsertOrAdd (int N + 2 + int N) (GetCasePinName CaseValuePinNamePrefix (int N))
     (InsertOrAdd (1 + int N) (GetCasePinName CaseKeyPinNamePrefix (int N)) (PinLayout N))
   = PinLayout (Suc N)"
proof -
  let ?ks = "map (\<lambda>i. GetCasePinName CaseKeyPinNamePrefix (int i)) [0 ..< N]"
  let ?vs = "map (\<lambda>i. GetCasePinName CaseValuePinNamePrefix (int i)) [0 ..< N]"
  let ?k = "GetCasePinName CaseKeyPinNamePrefix (int N)"
  let ?v = "GetCasePinName CaseValuePinNamePrefix (int N)"
  have n1: "nat (1 + int N) = Suc N" and n2: "nat (int N + 2 + int N) = Suc (Suc (N + N))"
    by simp_all
  have l1: "InsertOrAdd (1 + int N) ?k (PinLayout N)
      = DefaultOptionPinName # ?ks @ [?k] @ ?vs @ [ReturnValueOptionPinName]"
    unfolding InsertOrAdd_def n1 by (simp add: PinLayout_def BlockLayout_def)
  have l2: "InsertOrAdd (int N + 2 + int N) ?v
        (DefaultOptionPinName # ?ks @ [?k] @ ?vs @ [ReturnValueOptionPinName])
      = DefaultOptionPinName # ?ks @ [?k] @ ?vs @ [?v] @ [ReturnValueOptionPinName]"
    unfolding InsertOrAdd_def n2 by simp
  show ?thesis
    unfolding l1 l2 by (simp add: PinLayout_def BlockLayout_def)
qed

lemma PinLayout_positions:
  "PinLayout N ! 0 = DefaultOptionPinName"
  "i < N \<Longrightarrow> PinLayout N ! (1 + i) = GetCasePinName CaseKeyPinNamePrefix (int i)"
  "i < N \<Longrightarrow> PinLayout N ! (N + 1 + i) = GetCasePinName CaseValuePinNamePrefix (int i)"
  "PinLayout N ! (2 * N + 1) = ReturnValueOptionPinName"
  by (simp_all add: PinLayout_def BlockLayout_def nth_append)

lemma Default_in_PinLayout [simp]: "DefaultOptionPinName \<in> set (PinLayout N)"
  by (simp add: PinLayout_def BlockLayout_def)

lemma AddCasePinPair_layout:
  assumes "PinNames g this = map Some (PinLayout N)"
  shows "\<exists>pair g'. AddCasePinPair this (int N) g = Some (pair, g')
           \<and> PinNames g' this = map Some (PinLayout (Suc N))"
proof -
  from AddCasePinPair_PinNames [OF assms Default_in_PinLayout, of "int N"]
  obtain pair g' where res: "AddCasePinPair this (int N) g = Some (pair, g')"
    and names: "PinNames g' this =
               map Some (InsertOrAdd
                 (int (length (filter (\<lambda>s. StartsWith s CaseKeyPinNamePrefix) (PinLayout N))) + 2 + int N)
                 (GetCasePinName CaseValuePinNamePrefix (int N))
                 (InsertOrAdd (1 + int N) (GetCasePinName CaseKeyPinNamePrefix (int N)) (PinLayout N)))"
    by blast
  have "PinNames g' this = map Some (PinLayout (Suc N))"
    using names unfolding PinLayout_keycount PinLayout_Suc .
  with res show ?thesis
    by blast
qed

lemma AllocateDefaultPins_layout:
  assumes nd: "NodeOf g this = Some nd" and empty: "Pins nd = []"
  shows "\<exists>g'. AllocateDefaultPins this g = Some g' \<and> PinNames g' this = map Some (PinLayout 2)"
proof -
  have names0: "PinNames g this = []"
    using nd empty by (simp add: PinNames_def NodePins_def)
  from CreatePin_PinNames [OF nd, of EGPD_Input PC_Wildcard DefaultOptionPinName 0] empty
  obtain p1 g1 where c1: "CreatePin this EGPD_Input PC_Wildcard DefaultOptionPinName 0 g = Some (p1, g1)"
    and names1: "PinNames g1 this = [Some DefaultOptionPinName]"
    by (auto simp: names0 InsertOrAdd_def)
  have count1: "GetCasePinCount g1 this = 0"
    using GetCasePinCount_PinNames [of g1 this "[DefaultOptionPinName]"] names1 by simp
  obtain nd1 where nd1: "NodeOf g1 this = Some nd1"
    using names1 by (cases "NodeOf g1 this") (simp_all add: PinNames_def NodePins_def)
  have valid1: "\<forall>p \<in> set (Pins nd1). p < length (pin_store g1)"
    using PinNames_valid [of g1 this "[DefaultOptionPinName]"] names1 nd1
    by (simp add: NodePins_def)
  from CreatePin_PinNames [OF nd1 valid1, of EGPD_Output PC_Wildcard ReturnValueOptionPinName 1]
  obtain p2 g2 where c2: "CreatePin this EGPD_Output PC_Wildcard ReturnValueOptionPinName 1 g1 = Some (p2, g2)"
    and names2: "PinNames g2 this = map Some (PinLayout 0)"
    by (auto simp: names1 InsertOrAdd_def PinLayout_def BlockLayout_def)
  from AddCasePinPair_layout [OF names2]
  obtain pair3 g3 where c3: "AddCasePinPair this 0 g2 = Some (pair3, g3)"
    and names3: "PinNames g3 this = map Some (PinLayout (Suc 0))"
    by auto
  from AddCasePinPair_layout [OF names3]
  obtain pair4 g4 where c4: "AddCasePinPair this 1 g3 = Some (pair4, g4)"
    and names4: "PinNames g4 this = map Some (PinLayout (Suc (Suc 0)))"
    by auto
  have "AllocateDefaultPins this g = Some g4"
    using c1 c2 c3 c4 count1
    by (simp add: AllocateDefaultPins_def CreateDefaultOptionPin_def CreateReturnValuePin_def
        Super_AllocateDefaultPins_def)
  then show ?thesis
    using names4 by (simp add: numeral_2_eq_2)
qed


lemma value_prefix_not_key:
  assumes "StartsWith v CaseValuePinNamePrefix"
  shows "\<not> StartsWith v CaseKeyPinNamePrefix"
proof
  assume "StartsWith v CaseKeyPinNamePrefix"
  then have a: "take (length CaseKeyPinNamePrefix) v = CaseKeyPinNamePrefix"
    by (simp add: StartsWith_def)
  have b: "take (length CaseValuePinNamePrefix) v = CaseValuePinNamePrefix"
    using assms by (simp add: StartsWith_def)
  have "length CaseKeyPinNamePrefix \<le> length CaseValuePinNamePrefix"
    by (simp add: CaseKeyPinNamePrefix_def CaseValuePinNamePrefix_def)
  then have "take (length CaseKeyPinNamePrefix) (take (length CaseValuePinNamePrefix) v)
      = take (length CaseKeyPinNamePrefix) v"
    by (simp only: take_take min.absorb1)
  then have "take (length CaseKeyPinNamePrefix) CaseValuePinNamePrefix = CaseKeyPinNamePrefix"
    by (simp only: a b)
  then show False
    by (simp add: CaseKeyPinNamePrefix_def CaseValuePinNamePrefix_def)
qed

lemma AddCasePinPair_blocks:
  assumes names: "PinNames g this = map Some (BlockLayout ks vs)"
    and len: "length ks = N" "length vs = N"
    and ks: "\<forall>k \<in> set ks. StartsWith k CaseKeyPinNamePrefix"
    and vs: "\<forall>v \<in> set vs. StartsWith v CaseValuePinNamePrefix"
    and idx: "0 \<le> CaseIndex" "CaseIndex \<le> int N"
  shows "\<exists>pair g'. AddCasePinPair this CaseIndex g = Some (pair, g')
           \<and> PinNames g' this = map Some (BlockLayout
                 (take (nat CaseIndex) ks @ [GetCasePinName CaseKeyPinNamePrefix CaseIndex]
                    @ drop (nat CaseIndex) ks)
                 (take (nat CaseIndex) vs @ [GetCasePinName CaseValuePinNamePrefix CaseIndex]
                    @ drop (nat CaseIndex) vs))"
proof -
  let ?k = "GetCasePinName CaseKeyPinNamePrefix CaseIndex"
  let ?v = "GetCasePinName CaseValuePinNamePrefix CaseIndex"
  let ?j = "nat CaseIndex"
  have j: "?j \<le> N" "CaseIndex = int ?j"
    using idx by simp_all
  have "filter (\<lambda>s. StartsWith s CaseKeyPinNamePrefix) ks = ks"
    using ks by (intro filter_True) auto
  moreover have "filter (\<lambda>s. StartsWith s CaseKeyPinNamePrefix) vs = []"
    using vs value_prefix_not_key by (intro filter_False) auto
  ultimately have count: "length (filter (\<lambda>s. StartsWith s CaseKeyPinNamePrefix) (BlockLayout ks vs)) = N"
    using len by (simp add: BlockLayout_def)
  have dflt: "DefaultOptionPinName \<in> set (BlockLayout ks vs)"
    by (simp add: BlockLayout_def)
  from AddCasePinPair_PinNames [OF names dflt, of CaseIndex]
  obtain pair g' where res: "AddCasePinPair this CaseIndex g = Some (pair, g')"
    and names': "PinNames g' this =
               map Some (InsertOrAdd (int N + 2 + CaseIndex) ?v
                 (InsertOrAdd (1 + CaseIndex) ?k (BlockLayout ks vs)))"
    unfolding count by blast
  have n1: "nat (1 + CaseIndex) = Suc ?j" and n2: "nat (int N + 2 + CaseIndex) = Suc (Suc (N + ?j))"
    using idx by simp_all
  have c1: "0 \<le> 1 + CaseIndex \<and> 1 + CaseIndex < int (length (BlockLayout ks vs))"
    using idx len by (simp add: BlockLayout_def)
  have l1: "InsertOrAdd (1 + CaseIndex) ?k (BlockLayout ks vs)
      = DefaultOptionPinName # (take ?j ks @ [?k] @ drop ?j ks) @ vs @ [ReturnValueOptionPinName]"
    using j(1) len unfolding InsertOrAdd_def n1 if_P [OF c1] by (simp add: BlockLayout_def)
  have c2: "0 \<le> int N + 2 + CaseIndex \<and> int N + 2 + CaseIndex
      < int (length (DefaultOptionPinName # (take ?j ks @ [?k] @ drop ?j ks) @ vs @ [ReturnValueOptionPinName]))"
    using idx len by simp
  have l2: "InsertOrAdd (int N + 2 + CaseIndex) ?v
        (DefaultOptionPinName # (take ?j ks @ [?k] @ drop ?j ks) @ vs @ [ReturnValueOptionPinName])
      = DefaultOptionPinName # (take ?j ks @ [?k] @ drop ?j ks)
          @ (take ?j vs @ [?v] @ drop ?j vs) @ [ReturnValueOptionPinName]"
    using j(1) len unfolding InsertOrAdd_def n2 if_P [OF c2] by simp
  have "PinNames g' this = map Some (BlockLayout (take ?j ks @ [?k] @ drop ?j ks)
      (take ?j vs @ [?v] @ drop ?j vs))"
    unfolding names' l1 l2 by (simp add: BlockLayout_def)
  with res show ?thesis
    by blast
qed

lemma PinLayout_2: "PinLayout 2 = [''Default'', ''CaseOption0'', ''CaseOption1'',
    ''CaseCondition0'', ''CaseCondition1'', ''Return Value'']"
  by code_simp

lemma PinLayout_3: "PinLayout 3 = [''Default'', ''CaseOption0'', ''CaseOption1'', ''CaseOption2'',
    ''CaseCondition0'', ''CaseCondition1'', ''CaseCondition2'', ''Return Value'']"
  by code_simp

lemma ExampleGraph_PinNames: "PinNames (ExampleGraph C) 0 = map Some (PinLayout 2)"
  unfolding PinLayout_2
  by (simp add: PinNames_def NodePins_def NodeOf_def PinOf_def ExampleGraph_def ExamplePin_def)

text \<open>
  Claim C3. The pin layout, for the indices that keep it. Initial allocation on a node
  without pins yields the default pin at position 0, the two case pairs at positions 1 to 4
  and the return value pin last. Adding the case pair with the next index \<open>N\<close> to a node in
  the layout of \<open>N\<close> pairs yields the layout of \<open>N + 1\<close> pairs, and \<open>N + 1\<close> is then the
  number of option pins. More generally, adding a pair at any index from 0 to \<open>N\<close> puts the
  new option pin into the block of option pins and the new condition pin into the block of
  condition pins, at that index, between the default pin and the return value pin. In the
  layout of \<open>N\<close> pairs the default pin is at position 0, option pin \<open>i\<close> at position \<open>1 + i\<close>,
  condition pin \<open>i\<close> at position \<open>N + 1 + i\<close> and the return value pin at position \<open>2N + 1\<close>.
  \<^verbatim>\<open>AddCasePinPair\<close> itself does not check its index: beyond \<open>N\<close> the layout is lost, as the
  example after the next one shows.
\<close>

theorem pin_layout_invariant:
  "(\<forall>nd. NodeOf g this = Some nd \<and> Pins nd = [] \<longrightarrow>
      (\<exists>g'. AllocateDefaultPins this g = Some g' \<and> PinNames g' this = map Some (PinLayout 2)
            \<and> GetCasePinCount g' this = 2))
   \<and> (PinNames g this = map Some (PinLayout N) \<longrightarrow>
      (\<exists>pair g'. AddCasePinPair this (int N) g = Some (pair, g')
            \<and> PinNames g' this = map Some (PinLayout (Suc N))
            \<and> GetCasePinCount g' this = Suc N))
   \<and> (\<forall>ks vs CaseIndex.
        PinNames g this = map Some (BlockLayout ks vs) \<and> length ks = N \<and> length vs = N
        \<and> (\<forall>k \<in> set ks. StartsWith k CaseKeyPinNamePrefix)
        \<and> (\<forall>v \<in> set vs. StartsWith v CaseValuePinNamePrefix)
        \<and> 0 \<le> CaseIndex \<and> CaseIndex \<le> int N \<longrightarrow>
      (\<exists>pair g'. AddCasePinPair this CaseIndex g = Some (pair, g')
            \<and> PinNames g' this = map Some (BlockLayout
                 (take (nat CaseIndex) ks @ [GetCasePinName CaseKeyPinNamePrefix CaseIndex]
                    @ drop (nat CaseIndex) ks)
                 (take (nat CaseIndex) vs @ [GetCasePinName CaseValuePinNamePrefix CaseIndex]
                    @ drop (nat CaseIndex) vs))))
   \<and> length (PinLayout N) = 2 * N + 2
   \<and> PinLayout N ! 0 = DefaultOptionPinName
   \<and> (\<forall>i < N. PinLayout N ! (1 + i) = GetCasePinName CaseKeyPinNamePrefix (int i)
              \<and> PinLayout N ! (N + 1 + i) = GetCasePinName CaseValuePinNamePrefix (int i))
   \<and> PinLayout N ! (2 * N + 1) = ReturnValueOptionPinName"
proof (intro conjI allI impI)
  fix nd assume "NodeOf g this = Some nd \<and> Pins nd = []"
  then obtain g' where g': "AllocateDefaultPins this g = Some g'"
    "PinNames g' this = map Some (PinLayout 2)"
    using AllocateDefaultPins_layout [of g this nd] by blast
  then show "\<exists>g'. AllocateDefaultPins this g = Some g' \<and> PinNames g' this = map Some (PinLayout 2)
            \<and> GetCasePinCount g' this = 2"
    using GetCasePinCount_PinNames [OF g'(2)] by (simp add: PinLayout_keycount)
next
  assume "PinNames g this = map Some (PinLayout N)"
  then obtain pair g' where g': "AddCasePinPair this (int N) g = Some (pair, g')"
    "PinNames g' this = map Some (PinLayout (Suc N))"
    using AddCasePinPair_layout [of g this N] by blast
  then show "\<exists>pair g'. AddCasePinPair this (int N) g = Some (pair, g')
            \<and> PinNames g' this = map Some (PinLayout (Suc N))
            \<and> GetCasePinCount g' this = Suc N"
    using GetCasePinCount_PinNames [OF g'(2)] by (simp add: PinLayout_keycount)
next
  fix ks vs CaseIndex
  assume "PinNames g this = map Some (BlockLayout ks vs) \<and> length ks = N \<and> length vs = N
        \<and> (\<forall>k \<in> set ks. StartsWith k CaseKeyPinNamePrefix)
        \<and> (\<forall>v \<in> set vs. StartsWith v CaseValuePinNamePrefix)
        \<and> 0 \<le> CaseIndex \<and> CaseIndex \<le> int N"
  then show "\<exists>pair g'. AddCasePinPair this CaseIndex g = Some (pair, g')
            \<and> PinNames g' this = map Some (BlockLayout
                 (take (nat CaseIndex) ks @ [GetCasePinName CaseKeyPinNamePrefix CaseIndex]
                    @ drop (nat CaseIndex) ks)
                 (take (nat CaseIndex) vs @ [GetCasePinName CaseValuePinNamePrefix CaseIndex]
                    @ drop (nat CaseIndex) vs))"
    using AddCasePinPair_blocks [of g this ks vs N CaseIndex] by blast
qed (simp_all add: PinLayout_def BlockLayout_def nth_append)

theorem pin_layout_invariant_witness:
  "(\<exists>g'. AllocateDefaultPins 0 FreshNodeGraph = Some g'
        \<and> PinNames g' 0 = map Some [''Default'', ''CaseOption0'', ''CaseOption1'',
             ''CaseCondition0'', ''CaseCondition1'', ''Return Value'']
        \<and> GetCasePinCount g' 0 = 2)
   \<and> (\<exists>pair g'. AddCasePinPair 0 2 (ExampleGraph PC_Int) = Some (pair, g')
        \<and> PinNames g' 0 = map Some [''Default'', ''CaseOption0'', ''CaseOption1'', ''CaseOption2'',
             ''CaseCondition0'', ''CaseCondition1'', ''CaseCondition2'', ''Return Value'']
        \<and> GetCasePinCount g' 0 = 3)"
proof -
  have fresh: "NodeOf FreshNodeGraph 0 = Some \<lparr>NodeClass = K2Node_MultiConditionalSelect, Pins = []\<rparr>
      \<and> Pins \<lparr>NodeClass = K2Node_MultiConditionalSelect, Pins = []\<rparr> = []"
    by (simp add: NodeOf_def FreshNodeGraph_def)
  have a: "\<exists>g'. AllocateDefaultPins 0 FreshNodeGraph = Some g'
      \<and> PinNames g' 0 = map Some (PinLayout 2) \<and> GetCasePinCount g' 0 = 2"
    using pin_layout_invariant [of FreshNodeGraph 0 2] fresh by blast
  have b: "\<exists>pair g'. AddCasePinPair 0 (int 2) (ExampleGraph PC_Int) = Some (pair, g')
      \<and> PinNames g' 0 = map Some (PinLayout (Suc 2)) \<and> GetCasePinCount g' 0 = Suc 2"
    using pin_layout_invariant [of "ExampleGraph PC_Int" 0 2] ExampleGraph_PinNames by blast
  have "Suc 2 = 3"
    by simp
  with a b show ?thesis
    by (simp add: PinLayout_2 PinLayout_3)
qed

text \<open>
  Claim C3, as it is written, for every add-case-pair operation: on the example node with
  two case pairs \<^verbatim>\<open>AddCasePinPair(3)\<close> returns normally. The position \<open>1 + 3\<close> is a valid index of
  the six pins, so the new option pin is inserted among the condition pins; the position
  \<open>2 + 2 + 3\<close> is not a valid index of the seven pins, so the new condition pin is appended
  after the return value pin. The node then has three option pins and its pins are not in
  the layout of three pairs.
\<close>

theorem AddCasePinPair_index_beyond_count:
  "LayoutAfter 0 (AddCasePinPair 0 3 (ExampleGraph PC_Int))
     = Some [Some ''Default'', Some ''CaseOption0'', Some ''CaseOption1'', Some ''CaseCondition0'',
             Some ''CaseOption3'', Some ''CaseCondition1'', Some ''Return Value'',
             Some ''CaseCondition3'']
   \<and> LayoutAfter 0 (AddCasePinPair 0 3 (ExampleGraph PC_Int)) \<noteq> Some (map Some (PinLayout 3))
   \<and> CasePinCountAfter 0 (AddCasePinPair 0 3 (ExampleGraph PC_Int)) = Some 3"
  by code_simp

text \<open>
  Claim C8. Whatever the state of the node, as long as it has its default pin, adding a case
  pair creates two new pins of the node: an option pin whose declared type is the type the
  default pin has at the time of the call (the fixed type after unification, the wildcard
  before), and a condition pin whose declared type is boolean.
\<close>

theorem AddCasePinPair_pin_types:
  assumes "GetDefaultOptionPin g this = Some d" and "PinOf g d = Some dpin"
  shows "\<exists>Key Value g' kpin vpin.
           AddCasePinPair this CaseIndex g = Some ((Key, Value), g')
           \<and> PinOf g Key = None \<and> PinOf g Value = None
           \<and> PinOf g' Key = Some kpin \<and> IsCaseKeyPin kpin \<and> PinType kpin = PinType dpin
           \<and> PinOf g' Value = Some vpin \<and> IsCaseValuePin vpin
           \<and> PinType vpin = CategoryType PC_Boolean
           \<and> Key \<in> set (NodePins g' this) \<and> Value \<in> set (NodePins g' this)"
proof -
  obtain nd where nd: "NodeOf g this = Some nd"
    using FindPin_Some_valid(3) [OF assms(1) [unfolded GetDefaultOptionPin_def]] by blast
  have n: "this < length (node_store g)"
    using nd by (simp add: NodeOf_eq_Some)
  have dp: "pin_store g ! d = dpin"
    using assms(2) by (simp add: PinOf_Some_iff)
  show ?thesis
    using n
    by (simp add: AddCasePinPair_result [OF assms(1) nd] PinOf_def NodePins_def NodeOf_def
        nth_append dp CasePin_def IsCaseKeyPin_def IsCaseValuePin_def GetCasePinName_def)
qed

theorem AddCasePinPair_pin_types_witness:
  "\<exists>Key Value g' kpin vpin.
     AddCasePinPair 0 2 (ExampleGraph PC_Int) = Some ((Key, Value), g')
     \<and> PinOf g' Key = Some kpin \<and> PinType kpin = CategoryType PC_Int
     \<and> PinOf g' Value = Some vpin \<and> PinType vpin = CategoryType PC_Boolean"
proof -
  have d: "GetDefaultOptionPin (ExampleGraph PC_Int) 0 = Some 0"
    by (simp add: GetDefaultOptionPin_def DefaultOptionPinName_def FindPin_def NodePins_def
        NodeOf_def PinSatisfies_def PinOf_def ExampleGraph_def ExamplePin_def)
  have p: "PinOf (ExampleGraph PC_Int) 0 = Some (ExamplePin ''Default'' EGPD_Input PC_Int [6] 0)"
    by (simp add: PinOf_def ExampleGraph_def)
  from AddCasePinPair_pin_types [OF d p, of 2]
  show ?thesis
    by (auto simp: ExamplePin_def)
qed

section \<open>The type unification pass: what it sets, and when it does nothing\<close>

subsection \<open>What a lookup returns is a pin of the node\<close>

lemma PinSatisfies_iff: "PinSatisfies g Q p \<longleftrightarrow> (\<exists>pin. PinOf g p = Some pin \<and> Q pin)"
  by (simp add: PinSatisfies_def split: option.splits)

lemma FindPin_SomeD:
  assumes "FindPin g this Name = Some p"
  shows "p \<in> set (NodePins g this)" and "\<exists>pin. PinOf g p = Some pin \<and> PinName pin = Name"
  using assms by (auto simp: FindPin_def find_Some_iff PinSatisfies_iff)

lemma CaseKeyPins_valid: "p \<in> set (CaseKeyPins g this) \<Longrightarrow> p < length (pin_store g)"
  by (auto simp: CaseKeyPins_def PinSatisfies_iff PinOf_eq_Some)

lemma GetCasePinPairs_valid: "pr \<in> set (GetCasePinPairs g this) \<Longrightarrow> fst pr < length (pin_store g)"
  by (cases pr) (auto simp: GetCasePinPairs_def dest!: set_zip_leftD CaseKeyPins_valid)

subsection \<open>The unification loop\<close>

lemma UnifiedOn_empty: "UnifiedOn {} T g g"
  by (simp add: UnifiedOn_def map_nth)

lemma UnifiedOn_length: "UnifiedOn X T g0 g \<Longrightarrow> length (pin_store g) = length (pin_store g0)"
  by (simp add: UnifiedOn_def)

lemma UnifiedOn_PinOf:
  "UnifiedOn X T g0 g \<Longrightarrow>
   PinOf g q = (if q \<in> X then map_option (Retyped T (SchemaDefault g0 T)) (PinOf g0 q) else PinOf g0 q)"
  by (simp add: UnifiedOn_def PinOf_def)

lemma UnifiedOn_Skeleton:
  assumes "UnifiedOn X T g0 g"
  shows "Skeleton g = Skeleton g0"
proof -
  let ?k = "\<lambda>pin. (PinName pin, Direction pin, OwningNode pin)"
  let ?F = "\<lambda>q. if q \<in> X then Retyped T (SchemaDefault g0 T) (pin_store g0 ! q) else pin_store g0 ! q"
  have "map ?k (map ?F [0 ..< length (pin_store g0)]) = map ?k (pin_store g0)"
    by (rule nth_equalityI) (simp_all add: Retyped_def)
  then show ?thesis
    using assms by (simp add: UnifiedOn_def Skeleton_def)
qed

lemma UnifiedOn_step:
  assumes U: "UnifiedOn X T g0 g"
    and x: "x < length (pin_store g0)"
    and l: "l < length (pin_store g0)" "PinType (pin_store g0 ! l) = T"
  shows "\<exists>g1 g2. CopyPinType x l g = Some g1 \<and> ResetPinToAutogeneratedDefaultValue x g1 = Some g2
           \<and> UnifiedOn (insert x X) T g0 g2"
proof -
  let ?D = "SchemaDefault g0 T"
  let ?F = "\<lambda>Y q. if q \<in> Y then Retyped T ?D (pin_store g0 ! q) else pin_store g0 ! q"
  have g: "g = g0\<lparr>pin_store := map (?F X) [0 ..< length (pin_store g0)]\<rparr>"
    using U by (simp add: UnifiedOn_def)
  have px: "PinOf g x = Some (?F X x)" and pl: "PinOf g l = Some (?F X l)"
    using x l(1) by (simp_all add: g PinOf_def)
  have tl: "PinType (?F X l) = T"
    using l(2) by (simp add: Retyped_def)
  define g1 where "g1 = g\<lparr>pin_store := (pin_store g)[x := (?F X x)\<lparr>PinType := T\<rparr>]\<rparr>"
  have c: "CopyPinType x l g = Some g1"
    using CopyPinType_PinOf [OF px pl] tl by (simp add: g1_def)
  have px1: "PinOf g1 x = Some ((?F X x)\<lparr>PinType := T\<rparr>)"
    using x by (simp add: g1_def g PinOf_def)
  define g2 where "g2 = g1\<lparr>pin_store := (pin_store g1)[x := (?F X x)\<lparr>PinType := T, DefaultValue := ?D\<rparr>]\<rparr>"
  have r: "ResetPinToAutogeneratedDefaultValue x g1 = Some g2"
    using Reset_PinOf [OF px1] by (simp add: g2_def g1_def g)
  have "(map (?F X) [0 ..< length (pin_store g0)])[x := (?F X x)\<lparr>PinType := T, DefaultValue := ?D\<rparr>]
        = map (?F (insert x X)) [0 ..< length (pin_store g0)]"
    using x by (intro nth_equalityI) (auto simp: nth_list_update Retyped_def)
  then have "UnifiedOn (insert x X) T g0 g2"
    by (simp add: UnifiedOn_def g2_def g1_def g)
  with c r show ?thesis
    by blast
qed

lemma UnifiedOn_loop:
  assumes "UnifiedOn X T g0 g"
    and "\<forall>pr \<in> set prs. fst pr < length (pin_store g0)"
    and "l < length (pin_store g0)" "PinType (pin_store g0 ! l) = T"
  shows "\<exists>g'. ForEach (\<lambda>Pair g. do {
                  g' \<leftarrow> CopyPinType (fst Pair) l g;
                  ResetPinToAutogeneratedDefaultValue (fst Pair) g'
                }) prs g = Some g'
              \<and> UnifiedOn (X \<union> fst ` set prs) T g0 g'"
  using assms(1,2)
proof (induction prs arbitrary: X g)
  case Nil
  then show ?case by simp
next
  case (Cons pr prs)
  from Cons.prems have "fst pr < length (pin_store g0)"
    by simp
  from UnifiedOn_step [OF Cons.prems(1) this assms(3,4)]
  obtain g1 g2 where s: "CopyPinType (fst pr) l g = Some g1"
    "ResetPinToAutogeneratedDefaultValue (fst pr) g1 = Some g2"
    "UnifiedOn (insert (fst pr) X) T g0 g2"
    by blast
  from Cons.IH [OF s(3)] Cons.prems(2)
  obtain g' where "ForEach (\<lambda>Pair g. do {
                  g' \<leftarrow> CopyPinType (fst Pair) l g;
                  ResetPinToAutogeneratedDefaultValue (fst Pair) g'
                }) prs g2 = Some g'" "UnifiedOn (insert (fst pr) X \<union> fst ` set prs) T g0 g'"
    by auto
  then show ?case
    using s(1,2) by simp
qed

lemma At_Cons_0: "At (x # xs) 0 = Some x"
  by (simp add: At_def)

lemma PinConnectionListChanged_unifies:
  assumes P: "PinOf g P = Some pin" "LinkedTo pin = l # rest" "\<not> IsCaseValuePin pin"
    and d: "GetDefaultOptionPin g this = Some d" "PinOf g d = Some dpin"
      "PinCategory (PinType dpin) = PC_Wildcard"
    and r: "GetReturnValuePin g this = Some r"
    and l: "PinOf g l = Some lpin"
  shows "\<exists>g'. PinConnectionListChanged this (Some P) g
               = Some (BroadcastChanged (MarkBlueprintAsModified g'))
            \<and> UnifiedOn ({d, r} \<union> fst ` set (GetCasePinPairs g this)) (PinType lpin) g g'"
proof -
  let ?T = "PinType lpin"
  have lv: "l < length (pin_store g)" "PinType (pin_store g ! l) = ?T"
    using l by (simp_all add: PinOf_eq_Some)
  have dv: "d < length (pin_store g)"
    using d(2) by (simp add: PinOf_eq_Some)
  have rv: "r < length (pin_store g)"
    using FindPin_SomeD(2) [OF r [unfolded GetReturnValuePin_def]] by (auto simp: PinOf_eq_Some)
  from UnifiedOn_step [OF UnifiedOn_empty dv lv]
  obtain g3 g4 where s1: "CopyPinType d l g = Some g3"
    "ResetPinToAutogeneratedDefaultValue d g3 = Some g4" "UnifiedOn {d} ?T g g4"
    by blast
  have r4: "GetReturnValuePin g4 this = Some r"
    using Skeleton_FindPin [OF UnifiedOn_Skeleton [OF s1(3)]] r by (simp add: GetReturnValuePin_def)
  from UnifiedOn_step [OF s1(3) rv lv]
  obtain g5 g6 where s2: "CopyPinType r l g4 = Some g5"
    "ResetPinToAutogeneratedDefaultValue r g5 = Some g6" "UnifiedOn {r, d} ?T g g6"
    by blast
  have p6: "GetCasePinPairs g6 this = GetCasePinPairs g this"
    by (rule Skeleton_GetCasePinPairs [OF UnifiedOn_Skeleton [OF s2(3)]])
  have "\<forall>pr \<in> set (GetCasePinPairs g this). fst pr < length (pin_store g)"
    by (simp add: GetCasePinPairs_valid)
  from UnifiedOn_loop [OF s2(3) this lv]
  obtain g7 where s3: "ForEach (\<lambda>Pair g. do {
                  g' \<leftarrow> CopyPinType (fst Pair) l g;
                  ResetPinToAutogeneratedDefaultValue (fst Pair) g'
                }) (GetCasePinPairs g this) g6 = Some g7"
    "UnifiedOn ({r, d} \<union> fst ` set (GetCasePinPairs g this)) ?T g g7"
    by blast
  have "PinConnectionListChanged this (Some P) g = Some (BroadcastChanged (MarkBlueprintAsModified g7))"
    using P d s1(1,2) r4 s2(1,2) p6 s3(1)
    by (simp add: PinConnectionListChanged_def Super_PinConnectionListChanged_def Modify_def At_Cons_0)
  moreover have "{r, d} = {d, r}"
    by auto
  ultimately show ?thesis
    using s3(2) by auto
qed

lemma PinOf_notified [simp]: "PinOf (BroadcastChanged (MarkBlueprintAsModified g)) = PinOf g"
  by (rule ext) (simp add: PinOf_def BroadcastChanged_def MarkBlueprintAsModified_def)

lemma Skeleton_notified [simp]: "Skeleton (BroadcastChanged (MarkBlueprintAsModified g)) = Skeleton g"
  by (simp add: Skeleton_def BroadcastChanged_def MarkBlueprintAsModified_def)

lemma unified_result:
  assumes P: "PinOf g P = Some pin" "LinkedTo pin = l # rest" "\<not> IsCaseValuePin pin"
    and d: "GetDefaultOptionPin g this = Some d" "PinOf g d = Some dpin"
      "PinCategory (PinType dpin) = PC_Wildcard"
    and r: "GetReturnValuePin g this = Some r"
    and l: "PinOf g l = Some lpin"
  shows "\<exists>g'. PinConnectionListChanged this (Some P) g = Some g'
          \<and> (\<forall>x \<in> {d, r} \<union> fst ` set (GetCasePinPairs g this).
                map_option PinType (PinOf g' x) = Some (PinType lpin)
                \<and> map_option DefaultValue (PinOf g' x) = Some (SchemaDefault g (PinType lpin)))
          \<and> GetDefaultOptionPin g' this = Some d \<and> GetReturnValuePin g' this = Some r
          \<and> GetCasePinPairs g' this = GetCasePinPairs g this"
proof -
  let ?X = "{d, r} \<union> fst ` set (GetCasePinPairs g this)"
  from PinConnectionListChanged_unifies [OF assms]
  obtain g7 where res: "PinConnectionListChanged this (Some P) g
      = Some (BroadcastChanged (MarkBlueprintAsModified g7))"
    and U: "UnifiedOn ?X (PinType lpin) g g7"
    by blast
  let ?g' = "BroadcastChanged (MarkBlueprintAsModified g7)"
  have sk: "Skeleton ?g' = Skeleton g"
    using UnifiedOn_Skeleton [OF U] by simp
  have valid: "\<exists>xpin. PinOf g x = Some xpin" if "x \<in> ?X" for x
  proof -
    have "x < length (pin_store g)"
      using that d(2) FindPin_SomeD(2) [OF r [unfolded GetReturnValuePin_def]]
        GetCasePinPairs_valid [of _ g this]
      by (auto simp: PinOf_eq_Some)
    then show ?thesis
      by (simp add: PinOf_def)
  qed
  have "map_option PinType (PinOf ?g' x) = Some (PinType lpin)
        \<and> map_option DefaultValue (PinOf ?g' x) = Some (SchemaDefault g (PinType lpin))"
    if "x \<in> ?X" for x
    using valid [OF that] that UnifiedOn_PinOf [OF U, of x] by (auto simp: Retyped_def)
  moreover have "GetDefaultOptionPin ?g' this = Some d" "GetReturnValuePin ?g' this = Some r"
    using Skeleton_FindPin [OF sk] d(1) r by (simp_all add: GetDefaultOptionPin_def GetReturnValuePin_def)
  moreover have "GetCasePinPairs ?g' this = GetCasePinPairs g this"
    by (rule Skeleton_GetCasePinPairs [OF sk])
  ultimately show ?thesis
    using res by blast
qed

lemma PinConnectionListChanged_valid_fixed:
  assumes "GetDefaultOptionPin g this = Some d" "PinOf g d = Some dpin"
    "PinCategory (PinType dpin) \<noteq> PC_Wildcard"
    and "Pin = None \<or> (\<exists>P. Pin = Some P \<and> P < length (pin_store g))"
  shows "PinConnectionListChanged this Pin g = Some g"
  using assms by (auto simp: PinConnectionListChanged_def PinOf_def)

lemma ExampleGraph_lookups:
  "GetDefaultOptionPin (ExampleGraph C) 0 = Some 0"
  "GetReturnValuePin (ExampleGraph C) 0 = Some 5"
  "GetCasePinPairs (ExampleGraph C) 0 = [(1, 3), (2, 4)]"
  by (simp_all add: GetDefaultOptionPin_def GetReturnValuePin_def GetCasePinPairs_def
      CaseKeyPins_def CaseValuePins_def IsCaseKeyPin_def IsCaseValuePin_def StartsWith_def
      CaseKeyPinNamePrefix_def CaseValuePinNamePrefix_def DefaultOptionPinName_def
      ReturnValueOptionPinName_def FindPin_def NodePins_def NodeOf_def PinSatisfies_def PinOf_def
      ExampleGraph_def ExamplePin_def)

lemma ExampleGraph_PinOf:
  "PinOf (ExampleGraph C) 0 = Some (ExamplePin ''Default'' EGPD_Input C [6] 0)"
  "PinOf (ExampleGraph C) 1 = Some (ExamplePin ''CaseOption0'' EGPD_Input C [7] 0)"
  "PinOf (ExampleGraph C) 5 = Some (ExamplePin ''Return Value'' EGPD_Output C [11] 0)"
  "PinOf (ExampleGraph C) 7 = Some (ExamplePin ''First'' EGPD_Output PC_Int [1] 1)"
  "PinOf (ExampleGraph C) 11 = Some (ExamplePin ''Result'' EGPD_Input PC_Int [5] 1)"
  by (simp_all add: PinOf_def ExampleGraph_def)

text \<open>
  Claim C4. When a pin that is not a condition pin has a link while the default pin's type
  is still the wildcard, the type unification pass gives the default pin, the return value
  pin and the option pin of every case pair the exact type of the first link target of that
  pin, and resets the literal default of each of them to the schema's canonical default
  of that type. The three lookups find the same pins afterwards.
\<close>

theorem PinConnectionListChanged_fixes_types:
  assumes "PinOf g P = Some pin" and "LinkedTo pin = LinkedPin # rest"
    and "\<not> IsCaseValuePin pin"
    and "GetDefaultOptionPin g this = Some d" and "PinOf g d = Some dpin"
    and "PinCategory (PinType dpin) = PC_Wildcard"
    and "GetReturnValuePin g this = Some r"
    and "PinOf g LinkedPin = Some lpin"
  shows "\<exists>g'. PinConnectionListChanged this (Some P) g = Some g'
          \<and> (\<forall>x \<in> {d, r} \<union> fst ` set (GetCasePinPairs g this).
                map_option PinType (PinOf g' x) = Some (PinType lpin)
                \<and> map_option DefaultValue (PinOf g' x) = Some (SchemaDefault g (PinType lpin)))
          \<and> GetDefaultOptionPin g' this = Some d \<and> GetReturnValuePin g' this = Some r
          \<and> GetCasePinPairs g' this = GetCasePinPairs g this"
  using assms by (rule unified_result)

theorem PinConnectionListChanged_fixes_types_witness:
  "\<exists>g'. PinConnectionListChanged 0 (Some 1) (ExampleGraph PC_Wildcard) = Some g'
     \<and> map (\<lambda>x. map_option PinType (PinOf g' x)) [0, 5, 1, 2]
         = replicate 4 (Some (CategoryType PC_Int))
     \<and> map (\<lambda>x. map_option DefaultValue (PinOf g' x)) [0, 5, 1, 2] = replicate 4 (Some ''0'')"
proof -
  have nc: "\<not> IsCaseValuePin (ExamplePin ''CaseOption0'' EGPD_Input PC_Wildcard [7] 0)"
    by (simp add: IsCaseValuePin_def StartsWith_def CaseValuePinNamePrefix_def ExamplePin_def)
  have lk: "LinkedTo (ExamplePin ''CaseOption0'' EGPD_Input PC_Wildcard [7] 0) = 7 # []"
    by (simp add: ExamplePin_def)
  have wc: "PinCategory (PinType (ExamplePin ''Default'' EGPD_Input PC_Wildcard [6] 0)) = PC_Wildcard"
    by (simp add: ExamplePin_def CategoryType_def)
  from PinConnectionListChanged_fixes_types
    [OF ExampleGraph_PinOf(2) lk nc ExampleGraph_lookups(1) ExampleGraph_PinOf(1) wc
      ExampleGraph_lookups(2) ExampleGraph_PinOf(4)]
  obtain g' where g': "PinConnectionListChanged 0 (Some 1) (ExampleGraph PC_Wildcard) = Some g'"
    "\<forall>x \<in> {0, 5} \<union> fst ` set (GetCasePinPairs (ExampleGraph PC_Wildcard) 0).
        map_option PinType (PinOf g' x)
          = Some (PinType (ExamplePin ''First'' EGPD_Output PC_Int [1] 1))
        \<and> map_option DefaultValue (PinOf g' x)
          = Some (SchemaDefault (ExampleGraph PC_Wildcard)
                   (PinType (ExamplePin ''First'' EGPD_Output PC_Int [1] 1)))"
    by blast
  have sd: "SchemaDefault (ExampleGraph PC_Wildcard) (CategoryType PC_Int) = ''0''"
    by (simp add: ExampleGraph_def CategoryType_def PC_Int_def PC_Boolean_def)
  have "map (\<lambda>x. map_option PinType (PinOf g' x)) [0, 5, 1, 2]
      = replicate 4 (Some (CategoryType PC_Int))"
    using g'(2) by (simp add: ExampleGraph_lookups ExamplePin_def numeral_eq_Suc)
  moreover have "map (\<lambda>x. map_option DefaultValue (PinOf g' x)) [0, 5, 1, 2]
      = replicate 4 (Some ''0'')"
    using g'(2) sd by (simp add: ExampleGraph_lookups ExamplePin_def numeral_eq_Suc)
  ultimately show ?thesis
    using g'(1) by blast
qed

text \<open>
  Claim C6. Once the default pin's type is resolved (not the wildcard), a connection event
  changes nothing: whatever pin it is for and whatever that pin is linked to, the store
  after the event is the store before it, so the types of the default pin, the return
  value pin and the option pins stay as they are, through any sequence of such events.
\<close>

theorem PinConnectionListChanged_idempotent:
  assumes "GetDefaultOptionPin g this = Some d" and "PinOf g d = Some dpin"
    and "PinCategory (PinType dpin) \<noteq> PC_Wildcard"
    and "\<forall>Pin \<in> set Events. Pin = None \<or> (\<exists>P. Pin = Some P \<and> P < length (pin_store g))"
  shows "ForEach (PinConnectionListChanged this) Events g = Some g"
  using assms(4)
proof (induction Events)
  case Nil
  then show ?case by simp
next
  case (Cons Pin Events)
  then have "PinConnectionListChanged this Pin g = Some g"
    using PinConnectionListChanged_valid_fixed [OF assms(1-3), of Pin] by simp
  with Cons show ?case
    by simp
qed

theorem PinConnectionListChanged_idempotent_witness:
  "ForEach (PinConnectionListChanged 0) [Some 1, Some 5, None, Some 2] (ExampleGraph PC_Int)
     = Some (ExampleGraph PC_Int)"
proof -
  have "PinCategory (PinType (ExamplePin ''Default'' EGPD_Input PC_Int [6] 0)) \<noteq> PC_Wildcard"
    by (simp add: ExamplePin_def CategoryType_def PC_Int_def PC_Wildcard_def)
  moreover have "\<forall>Pin \<in> set [Some 1, Some 5, None, Some 2].
      Pin = None \<or> (\<exists>P. Pin = Some P \<and> P < length (pin_store (ExampleGraph PC_Int)))"
    by (simp add: ExampleGraph_def)
  ultimately show ?thesis
    by (rule PinConnectionListChanged_idempotent [OF ExampleGraph_lookups(1) ExampleGraph_PinOf(1)])
qed

text \<open>
  Claim C9. The pass does not look at the direction of the pin it is called for. A link on
  the return value pin, an output, while the default pin's type is the wildcard gives the
  default pin, the return value pin and every option pin the type of the link target; and
  an input pin of the node that is not a condition pin and whose first link target has the
  same type leads to the very same store.
\<close>

theorem PinConnectionListChanged_output_pin:
  assumes "GetReturnValuePin g this = Some r" and "PinOf g r = Some rpin"
    and "Direction rpin = EGPD_Output" and "LinkedTo rpin = LinkedPin # rest"
    and "PinOf g LinkedPin = Some lpin"
    and "GetDefaultOptionPin g this = Some d" and "PinOf g d = Some dpin"
    and "PinCategory (PinType dpin) = PC_Wildcard"
  shows "\<exists>g'. PinConnectionListChanged this (Some r) g = Some g'
          \<and> (\<forall>x \<in> {d, r} \<union> fst ` set (GetCasePinPairs g this).
                map_option PinType (PinOf g' x) = Some (PinType lpin))
          \<and> (\<forall>P pin l' rest' lpin'.
                PinOf g P = Some pin \<and> Direction pin = EGPD_Input \<and> \<not> IsCaseValuePin pin
                \<and> LinkedTo pin = l' # rest' \<and> PinOf g l' = Some lpin' \<and> PinType lpin' = PinType lpin
                \<longrightarrow> PinConnectionListChanged this (Some P) g = Some g')"
proof -
  have "PinName rpin = ReturnValueOptionPinName"
    using FindPin_SomeD(2) [OF assms(1) [unfolded GetReturnValuePin_def]] assms(2) by simp
  then have nc: "\<not> IsCaseValuePin rpin"
    by (simp add: IsCaseValuePin_def StartsWith_def CaseValuePinNamePrefix_def
        ReturnValueOptionPinName_def)
  let ?X = "{d, r} \<union> fst ` set (GetCasePinPairs g this)"
  from PinConnectionListChanged_unifies [OF assms(2) assms(4) nc assms(6-8) assms(1) assms(5)]
  obtain g7 where res: "PinConnectionListChanged this (Some r) g
      = Some (BroadcastChanged (MarkBlueprintAsModified g7))"
    and U: "UnifiedOn ?X (PinType lpin) g g7"
    by blast
  have same: "PinConnectionListChanged this (Some P) g
      = Some (BroadcastChanged (MarkBlueprintAsModified g7))"
    if "PinOf g P = Some pin" "\<not> IsCaseValuePin pin" "LinkedTo pin = l' # rest'"
      "PinOf g l' = Some lpin'" "PinType lpin' = PinType lpin" for P pin l' rest' lpin'
  proof -
    from PinConnectionListChanged_unifies [OF that(1) that(3) that(2) assms(6-8) assms(1) that(4)]
    obtain g7' where res': "PinConnectionListChanged this (Some P) g
        = Some (BroadcastChanged (MarkBlueprintAsModified g7'))"
      and U': "UnifiedOn ?X (PinType lpin') g g7'"
      by blast
    have "g7' = g7"
      using U U' that(5) by (simp add: UnifiedOn_def)
    with res' show ?thesis
      by simp
  qed
  from unified_result [OF assms(2) assms(4) nc assms(6-8) assms(1) assms(5)] res
  have "\<forall>x \<in> ?X. map_option PinType (PinOf (BroadcastChanged (MarkBlueprintAsModified g7)) x)
      = Some (PinType lpin)"
    by auto
  with res same show ?thesis
    by blast
qed

theorem PinConnectionListChanged_output_pin_witness:
  "\<exists>g'. PinConnectionListChanged 0 (Some 5) (ExampleGraph PC_Wildcard) = Some g'
     \<and> map (\<lambda>x. map_option PinType (PinOf g' x)) [0, 5, 1, 2]
         = replicate 4 (Some (CategoryType PC_Int))
     \<and> PinConnectionListChanged 0 (Some 1) (ExampleGraph PC_Wildcard) = Some g'"
proof -
  have nc: "\<not> IsCaseValuePin (ExamplePin ''CaseOption0'' EGPD_Input PC_Wildcard [7] 0)"
    by (simp add: IsCaseValuePin_def StartsWith_def CaseValuePinNamePrefix_def ExamplePin_def)
  have dir: "Direction (ExamplePin ''Return Value'' EGPD_Output PC_Wildcard [11] 0) = EGPD_Output"
    and lk: "LinkedTo (ExamplePin ''Return Value'' EGPD_Output PC_Wildcard [11] 0) = 11 # []"
    and wc: "PinCategory (PinType (ExamplePin ''Default'' EGPD_Input PC_Wildcard [6] 0)) = PC_Wildcard"
    by (simp_all add: ExamplePin_def CategoryType_def)
  from PinConnectionListChanged_output_pin
    [OF ExampleGraph_lookups(2) ExampleGraph_PinOf(3) dir lk ExampleGraph_PinOf(5)
      ExampleGraph_lookups(1) ExampleGraph_PinOf(1) wc]
  obtain g' where g': "PinConnectionListChanged 0 (Some 5) (ExampleGraph PC_Wildcard) = Some g'"
    "\<forall>x \<in> {0, 5} \<union> fst ` set (GetCasePinPairs (ExampleGraph PC_Wildcard) 0).
        map_option PinType (PinOf g' x) = Some (PinType (ExamplePin ''Result'' EGPD_Input PC_Int [5] 1))"
    "\<forall>P pin l' rest' lpin'.
        PinOf (ExampleGraph PC_Wildcard) P = Some pin \<and> Direction pin = EGPD_Input
        \<and> \<not> IsCaseValuePin pin \<and> LinkedTo pin = l' # rest'
        \<and> PinOf (ExampleGraph PC_Wildcard) l' = Some lpin'
        \<and> PinType lpin' = PinType (ExamplePin ''Result'' EGPD_Input PC_Int [5] 1)
        \<longrightarrow> PinConnectionListChanged 0 (Some P) (ExampleGraph PC_Wildcard) = Some g'"
    by blast
  have "PinConnectionListChanged 0 (Some 1) (ExampleGraph PC_Wildcard) = Some g'"
    using g'(3) [rule_format, of 1 _ 7 "[]"] ExampleGraph_PinOf(2) [of PC_Wildcard]
      ExampleGraph_PinOf(4) [of PC_Wildcard] nc
    by (simp add: ExamplePin_def)
  moreover have "map (\<lambda>x. map_option PinType (PinOf g' x)) [0, 5, 1, 2]
      = replicate 4 (Some (CategoryType PC_Int))"
    using g'(2) by (simp add: ExampleGraph_lookups ExamplePin_def numeral_eq_Suc)
  ultimately show ?thesis
    using g'(1) by blast
qed

section \<open>Reconstruction copies the old default pin's type forward\<close>

subsection \<open>Reconstruction\<close>

lemma ForEach_append:
  "ForEach body (xs @ ys) s = (case ForEach body xs s of None \<Rightarrow> None | Some s' \<Rightarrow> ForEach body ys s')"
  by (induction xs arbitrary: s) (auto split: option.splits)

lemma find_old_default:
  assumes "\<forall>p \<in> set ps. p < length (pin_store g)"
  shows "ForEach (\<lambda>Pin old. do {
                    pin \<leftarrow> PinOf g Pin;
                    Some (if PinName pin = DefaultOptionPinName then Some Pin else old)
                  }) ps init
         = Some (case filter (\<lambda>p. PinName (pin_store g ! p) = DefaultOptionPinName) ps of
                   [] \<Rightarrow> init | x # xs \<Rightarrow> Some (last (x # xs)))"
  using assms
proof (induction ps arbitrary: init)
  case Nil
  then show ?case by simp
next
  case (Cons p ps)
  then show ?case
    by (simp add: PinOf_def split: list.splits)
qed

lemma key_name_not_value [simp]:
  "\<not> StartsWith (GetCasePinName CaseKeyPinNamePrefix i) CaseValuePinNamePrefix"
  by (simp add: GetCasePinName_def StartsWith_def CaseValuePinNamePrefix_def CaseKeyPinNamePrefix_def)

lemma value_name_is_value [simp]:
  "StartsWith (GetCasePinName CaseValuePinNamePrefix i) CaseValuePinNamePrefix"
  by (simp add: GetCasePinName_def)

lemma fixed_names_not_value [simp]:
  "\<not> StartsWith DefaultOptionPinName CaseValuePinNamePrefix"
  "\<not> StartsWith ReturnValueOptionPinName CaseValuePinNamePrefix"
  by (simp_all add: StartsWith_def DefaultOptionPinName_def ReturnValueOptionPinName_def
      CaseValuePinNamePrefix_def)

lemma Rebuilding_AddCasePinPair:
  assumes R: "Rebuilding g0 this g" and add: "AddCasePinPair this CaseIndex g = Some (pair, g')"
  shows "Rebuilding g0 this g'"
proof -
  obtain d where d: "GetDefaultOptionPin g this = Some d"
    using add by (cases "GetDefaultOptionPin g this")
      (auto simp: AddCasePinPair_def Let_def split: Option.bind_splits)
  obtain nd where nd: "NodeOf g this = Some nd"
    using FindPin_Some_valid(3) [OF d [unfolded GetDefaultOptionPin_def]] by blast
  have n: "this < length (node_store g)"
    using nd by (simp add: NodeOf_eq_Some)
  have pins: "NodePins g this = Pins nd"
    using nd by (simp add: NodePins_def)
  let ?k = "length (pin_store g)"
  have g': "g' = g\<lparr>pin_store := pin_store g @
               [CasePin this CaseKeyPinNamePrefix CaseKeyPinFriendlyNamePrefix CaseIndex
                  (PinType (pin_store g ! d)),
                CasePin this CaseValuePinNamePrefix CaseValuePinFriendlyNamePrefix CaseIndex
                  (CategoryType PC_Boolean)],
             node_store := (node_store g)[this := nd\<lparr>Pins :=
               InsertOrAdd (int (GetCasePinCount g this) + 2 + CaseIndex) (Suc ?k)
                 (InsertOrAdd (1 + CaseIndex) ?k (Pins nd))\<rparr>]\<rparr>"
    using add by (simp add: AddCasePinPair_result [OF d nd])
  have pins': "set (NodePins g' this) = {?k, Suc ?k} \<union> set (Pins nd)"
    using n by (auto simp: g' NodePins_def NodeOf_def)
  have len: "length (pin_store g0) \<le> ?k" and pre: "take (length (pin_store g0)) (pin_store g) = pin_store g0"
    using R by (simp_all add: Rebuilding_def)
  have old: "\<forall>p \<in> set (Pins nd). length (pin_store g0) \<le> p \<and> p < ?k
           \<and> (IsCaseValuePin (pin_store g ! p) \<longrightarrow> PinType (pin_store g ! p) = CategoryType PC_Boolean)"
    using R pins by (simp add: Rebuilding_def)
  show ?thesis
    unfolding Rebuilding_def pins'
    using len pre old
    by (auto simp: g' nth_append CasePin_def IsCaseValuePin_def)
qed

lemma readd_case_pairs:
  assumes "PinNames g this = map Some (PinLayout 0)" and "Rebuilding g0 this g"
  shows "\<exists>g'. ForEach (\<lambda>Index g'. map_option snd (AddCasePinPair this Index g'))
                 (map int [0 ..< K]) g = Some g'
              \<and> PinNames g' this = map Some (PinLayout K) \<and> Rebuilding g0 this g'"
proof (induction K)
  case 0
  then show ?case
    using assms by simp
next
  case (Suc K)
  then obtain g1 where g1: "ForEach (\<lambda>Index g'. map_option snd (AddCasePinPair this Index g'))
                 (map int [0 ..< K]) g = Some g1"
    "PinNames g1 this = map Some (PinLayout K)" "Rebuilding g0 this g1"
    by blast
  from AddCasePinPair_layout [OF g1(2)]
  obtain pair g2 where g2: "AddCasePinPair this (int K) g1 = Some (pair, g2)"
    "PinNames g2 this = map Some (PinLayout (Suc K))"
    by blast
  have "Rebuilding g0 this g2"
    by (rule Rebuilding_AddCasePinPair [OF g1(3) g2(1)])
  then show ?case
    using g1(1) g2 by (simp add: ForEach_append)
qed

lemma RetypedOn_empty: "RetypedOn {} T g g"
  by (simp add: RetypedOn_def map_nth)

lemma RetypedOn_PinOf:
  "RetypedOn X T g0 g \<Longrightarrow>
   PinOf g q = (if q \<in> X then map_option (\<lambda>pin. pin\<lparr>PinType := T\<rparr>) (PinOf g0 q) else PinOf g0 q)"
  by (simp add: RetypedOn_def PinOf_def)

lemma RetypedOn_Skeleton:
  assumes "RetypedOn X T g0 g"
  shows "Skeleton g = Skeleton g0"
proof -
  let ?k = "\<lambda>pin. (PinName pin, Direction pin, OwningNode pin)"
  let ?F = "\<lambda>q. if q \<in> X then (pin_store g0 ! q)\<lparr>PinType := T\<rparr> else pin_store g0 ! q"
  have "map ?k (map ?F [0 ..< length (pin_store g0)]) = map ?k (pin_store g0)"
    by (rule nth_equalityI) simp_all
  then show ?thesis
    using assms by (simp add: RetypedOn_def Skeleton_def)
qed

lemma RetypedOn_step:
  assumes U: "RetypedOn X T g0 g"
    and x: "x < length (pin_store g0)"
    and l: "l < length (pin_store g0)" "PinType (pin_store g0 ! l) = T"
  shows "\<exists>g1. CopyPinType x l g = Some g1 \<and> RetypedOn (insert x X) T g0 g1"
proof -
  let ?F = "\<lambda>Y q. if q \<in> Y then (pin_store g0 ! q)\<lparr>PinType := T\<rparr> else pin_store g0 ! q"
  have g: "g = g0\<lparr>pin_store := map (?F X) [0 ..< length (pin_store g0)]\<rparr>"
    using U by (simp add: RetypedOn_def)
  have px: "PinOf g x = Some (?F X x)" and pl: "PinOf g l = Some (?F X l)"
    using x l(1) by (simp_all add: g PinOf_def)
  have tl: "PinType (?F X l) = T"
    using l(2) by simp
  define g1 where "g1 = g\<lparr>pin_store := (pin_store g)[x := (?F X x)\<lparr>PinType := T\<rparr>]\<rparr>"
  have c: "CopyPinType x l g = Some g1"
    using CopyPinType_PinOf [OF px pl] tl by (simp add: g1_def)
  have "(map (?F X) [0 ..< length (pin_store g0)])[x := (?F X x)\<lparr>PinType := T\<rparr>]
        = map (?F (insert x X)) [0 ..< length (pin_store g0)]"
    using x by (intro nth_equalityI) (auto simp: nth_list_update)
  then have "RetypedOn (insert x X) T g0 g1"
    by (simp add: RetypedOn_def g1_def g)
  with c show ?thesis
    by blast
qed

lemma RetypedOn_loop:
  assumes "RetypedOn X T g0 g"
    and "\<forall>pr \<in> set prs. fst pr < length (pin_store g0)"
    and "l < length (pin_store g0)" "PinType (pin_store g0 ! l) = T"
  shows "\<exists>g'. ForEach (\<lambda>Pair g. CopyPinType (fst Pair) l g) prs g = Some g'
              \<and> RetypedOn (X \<union> fst ` set prs) T g0 g'"
  using assms(1,2)
proof (induction prs arbitrary: X g)
  case Nil
  then show ?case by simp
next
  case (Cons pr prs)
  from Cons.prems have "fst pr < length (pin_store g0)"
    by simp
  from RetypedOn_step [OF Cons.prems(1) this assms(3,4)]
  obtain g1 where s: "CopyPinType (fst pr) l g = Some g1" "RetypedOn (insert (fst pr) X) T g0 g1"
    by blast
  from Cons.IH [OF s(2)] Cons.prems(2)
  obtain g' where "ForEach (\<lambda>Pair g. CopyPinType (fst Pair) l g) prs g1 = Some g'"
    "RetypedOn (insert (fst pr) X \<union> fst ` set prs) T g0 g'"
    by auto
  then show ?case
    using s(1) by simp
qed

lemma Skeleton_PinNames:
  assumes "Skeleton g' = Skeleton g"
  shows "PinNames g' this = PinNames g this"
proof -
  have "map_option PinName (PinOf g' p) = map_option PinName (PinOf g p)" for p
    using Skeleton_nth(1) [OF assms, of p] Skeleton_length [OF assms] by (simp add: PinOf_def)
  then show ?thesis
    by (simp add: PinNames_def Skeleton_NodePins [OF assms])
qed

lemma CaseValuePins_PinNames:
  assumes "PinNames g this = map Some ns"
  shows "length (CaseValuePins g this) = length (filter (\<lambda>s. StartsWith s CaseValuePinNamePrefix) ns)"
proof -
  let ?Q = "\<lambda>n. case n of None \<Rightarrow> False | Some s \<Rightarrow> StartsWith s CaseValuePinNamePrefix"
  have "PinSatisfies g IsCaseValuePin = ?Q \<circ> (\<lambda>p. map_option PinName (PinOf g p))"
    by (rule ext) (simp add: PinSatisfies_def IsCaseValuePin_def split: option.splits)
  then have "length (CaseValuePins g this) = length (filter ?Q (PinNames g this))"
    by (simp add: CaseValuePins_def PinNames_def filter_map)
  also have "\<dots> = length (filter (?Q \<circ> Some) ns)"
    by (simp add: assms filter_map)
  finally show ?thesis
    by (simp add: comp_def)
qed

lemma PinLayout_valuecount:
  "length (filter (\<lambda>s. StartsWith s CaseValuePinNamePrefix) (PinLayout N)) = N"
proof -
  have "filter (\<lambda>s. StartsWith s CaseValuePinNamePrefix)
          (map (\<lambda>i. GetCasePinName CaseValuePinNamePrefix (int i)) [0 ..< N])
        = map (\<lambda>i. GetCasePinName CaseValuePinNamePrefix (int i)) [0 ..< N]"
    by (rule filter_True) auto
  moreover have "filter (\<lambda>s. StartsWith s CaseValuePinNamePrefix)
          (map (\<lambda>i. GetCasePinName CaseKeyPinNamePrefix (int i)) [0 ..< N]) = []"
    by (rule filter_False) auto
  ultimately show ?thesis
    by (simp add: PinLayout_def BlockLayout_def)
qed

lemma layout_pairs_cover_keys:
  assumes "PinNames g this = map Some (PinLayout N)"
  shows "fst ` set (GetCasePinPairs g this) = set (CaseKeyPins g this)"
proof -
  have "length (CaseKeyPins g this) = length (CaseValuePins g this)"
    using GetCasePinCount_PinNames [OF assms] CaseValuePins_PinNames [OF assms]
    by (simp add: GetCasePinCount_def PinLayout_keycount PinLayout_valuecount)
  then have "map fst (GetCasePinPairs g this) = CaseKeyPins g this"
    by (simp add: GetCasePinPairs_def)
  then have "set (map fst (GetCasePinPairs g this)) = set (CaseKeyPins g this)"
    by simp
  then show ?thesis
    by (simp only: set_map)
qed

lemma Rebuilding_created:
  assumes R: "Rebuilding g0 this g" and nd: "NodeOf g this = Some nd"
    and name: "\<not> StartsWith Name CaseValuePinNamePrefix"
  shows "Rebuilding g0 this
           (g\<lparr>pin_store := pin_store g @ [NewPin this Dir T Name],
              node_store := (node_store g)[this := nd\<lparr>Pins := InsertOrAdd Index (length (pin_store g)) (Pins nd)\<rparr>]\<rparr>)"
proof -
  have n: "this < length (node_store g)"
    using nd by (simp add: NodeOf_eq_Some)
  have pins: "NodePins g this = Pins nd"
    using nd by (simp add: NodePins_def)
  show ?thesis
    using R n name unfolding Rebuilding_def pins
    by (auto simp: NodePins_def NodeOf_def nth_append NewPin_def IsCaseValuePin_def)
qed

lemma FindPin_PinNames:
  assumes "PinNames g this = map Some ns" "Name \<in> set ns"
  shows "\<exists>p. FindPin g this Name = Some p"
proof -
  have "Some Name \<in> set (PinNames g this)"
    using assms by simp
  then have "Some Name \<in> (\<lambda>p. map_option PinName (PinOf g p)) ` set (NodePins g this)"
    by (simp add: PinNames_def)
  then obtain p where p: "p \<in> set (NodePins g this)" "Some Name = map_option PinName (PinOf g p)"
    by blast
  then have "PinSatisfies g (\<lambda>pin. PinName pin = Name) p"
    by (cases "PinOf g p") (auto simp: PinSatisfies_def)
  with p(1) have "find (PinSatisfies g (\<lambda>pin. PinName pin = Name)) (NodePins g this) \<noteq> None"
    by (auto simp: find_None_iff)
  then show ?thesis
    by (auto simp: FindPin_def)
qed

lemma Return_in_PinLayout [simp]: "ReturnValueOptionPinName \<in> set (PinLayout N)"
  by (simp add: PinLayout_def BlockLayout_def)

lemma CaseKeyPins_D:
  assumes "p \<in> set (CaseKeyPins g this)"
  shows "p \<in> set (NodePins g this)" and "p < length (pin_store g)"
    and "IsCaseKeyPin (pin_store g ! p)"
  using assms by (auto simp: CaseKeyPins_def PinSatisfies_iff PinOf_eq_Some)

lemma CaseValuePins_D:
  assumes "p \<in> set (CaseValuePins g this)"
  shows "p \<in> set (NodePins g this)" and "p < length (pin_store g)"
    and "IsCaseValuePin (pin_store g ! p)"
  using assms by (auto simp: CaseValuePins_def PinSatisfies_iff PinOf_eq_Some)

lemma key_pin_not_value_pin: "IsCaseKeyPin pin \<Longrightarrow> \<not> IsCaseValuePin pin"
  using value_prefix_not_key [of "PinName pin"] by (auto simp: IsCaseKeyPin_def IsCaseValuePin_def)

lemma reconstruction_start:
  assumes nd: "NodeOf g this = Some nd"
  defines "g0 \<equiv> g\<lparr>node_store := (node_store g)[this := nd\<lparr>Pins := []\<rparr>]\<rparr>"
  shows "\<exists>g1 g2. CreateDefaultOptionPin this g0 = Some g1 \<and> CreateReturnValuePin this g1 = Some g2
           \<and> PinNames g2 this = map Some (PinLayout 0) \<and> Rebuilding g0 this g2"
proof -
  have n: "this < length (node_store g)"
    using nd by (simp add: NodeOf_eq_Some)
  have nd0: "NodeOf g0 this = Some (nd\<lparr>Pins := []\<rparr>)"
    using n by (simp add: g0_def NodeOf_def)
  have names0: "PinNames g0 this = []"
    using nd0 by (simp add: PinNames_def NodePins_def)
  have R0: "Rebuilding g0 this g0"
    using nd0 by (simp add: Rebuilding_def NodePins_def)
  let ?p1 = "NewPin this EGPD_Input (CategoryType PC_Wildcard) DefaultOptionPinName"
  let ?nd1 = "nd\<lparr>Pins := InsertOrAdd 0 (length (pin_store g0)) []\<rparr>"
  define g1 where "g1 = g0\<lparr>pin_store := pin_store g0 @ [?p1],
      node_store := (node_store g0)[this := ?nd1]\<rparr>"
  have c1: "CreateDefaultOptionPin this g0 = Some g1"
    by (simp add: CreateDefaultOptionPin_def CreatePin_def CreatePinOfType_result [OF nd0] g1_def)
  have names1: "PinNames g1 this = [Some DefaultOptionPinName]"
    using PinNames_after_create [OF nd0, where pin = ?p1 and Index = 0] names0
    by (simp add: g1_def InsertOrAdd_def NewPin_def)
  have R1: "Rebuilding g0 this g1"
    using Rebuilding_created [OF R0 nd0 fixed_names_not_value(1), where Dir = EGPD_Input
        and T = "CategoryType PC_Wildcard" and Index = 0]
    by (simp add: g1_def)
  have n0: "this < length (node_store g0)"
    using n by (simp add: g0_def)
  have nd1: "NodeOf g1 this = Some ?nd1"
    using n0 by (simp add: g1_def NodeOf_def)
  have valid1: "\<forall>p \<in> set (Pins ?nd1). p < length (pin_store g1)"
    by (simp add: g1_def InsertOrAdd_def)
  have count1: "GetCasePinCount g1 this = 0"
    using GetCasePinCount_PinNames [of g1 this "[DefaultOptionPinName]"] names1 by simp
  let ?p2 = "NewPin this EGPD_Output (CategoryType PC_Wildcard) ReturnValueOptionPinName"
  define g2 where "g2 = g1\<lparr>pin_store := pin_store g1 @ [?p2],
      node_store := (node_store g1)[this := ?nd1\<lparr>Pins := InsertOrAdd 1 (length (pin_store g1)) (Pins ?nd1)\<rparr>]\<rparr>"
  have c2: "CreateReturnValuePin this g1 = Some g2"
    by (simp add: CreateReturnValuePin_def count1 CreatePin_def CreatePinOfType_result [OF nd1] g2_def)
  have names2: "PinNames g2 this = map Some (PinLayout 0)"
    using PinNames_after_create [OF nd1 valid1, where pin = ?p2 and Index = 1] names1
    by (simp add: g2_def InsertOrAdd_def NewPin_def PinLayout_def BlockLayout_def)
  have R2: "Rebuilding g0 this g2"
    using Rebuilding_created [OF R1 nd1 fixed_names_not_value(2), where Dir = EGPD_Output
        and T = "CategoryType PC_Wildcard" and Index = 1]
    by (simp add: g2_def)
  show ?thesis
    using c1 c2 names2 R2 by blast
qed

text \<open>
  Claim C5. A reconstruction event on a node whose old pins include one named like the
  default pin builds a new pin set in the documented layout, with one case pair for each
  old option pin. The new default pin, the new return value pin and every new option pin
  have the type that the old default pin had (the last old pin of that name, which is what
  the lookup loop keeps); the condition pins are not touched by the copy and are boolean.
\<close>

theorem ReconstructNode_copies_type:
  assumes nd: "NodeOf g this = Some nd"
    and valid: "\<forall>p \<in> set (Pins nd). p < length (pin_store g)"
    and olds: "filter (\<lambda>p. PinName (pin_store g ! p) = DefaultOptionPinName) (Pins nd) \<noteq> []"
  shows "\<exists>g' d r. ReconstructNode this g = Some g'
          \<and> GetDefaultOptionPin g' this = Some d \<and> GetReturnValuePin g' this = Some r
          \<and> (\<forall>x \<in> {d, r} \<union> set (CaseKeyPins g' this).
                length (pin_store g) \<le> x
                \<and> map_option PinType (PinOf g' x)
                  = Some (PinType (pin_store g !
                      last (filter (\<lambda>p. PinName (pin_store g ! p) = DefaultOptionPinName) (Pins nd)))))
          \<and> (\<forall>c \<in> set (CaseValuePins g' this).
                map_option PinType (PinOf g' c) = Some (CategoryType PC_Boolean))
          \<and> PinNames g' this
              = map Some (PinLayout (length (filter (PinSatisfies g IsCaseKeyPin) (Pins nd))))"
proof -
  let ?k = "length (pin_store g)"
  let ?olds = "filter (\<lambda>p. PinName (pin_store g ! p) = DefaultOptionPinName) (Pins nd)"
  let ?old = "last ?olds"
  let ?T = "PinType (pin_store g ! ?old)"
  let ?K = "length (filter (PinSatisfies g IsCaseKeyPin) (Pins nd))"
  define g0 where "g0 = g\<lparr>node_store := (node_store g)[this := nd\<lparr>Pins := []\<rparr>]\<rparr>"
  have store0: "pin_store g0 = pin_store g"
    by (simp add: g0_def)
  have "?old \<in> set ?olds"
    using olds by (rule last_in_set)
  then have oldv: "?old < ?k"
    using valid by simp
  have find: "ForEach (\<lambda>Pin old. do {
                    pin \<leftarrow> PinOf g0 Pin;
                    Some (if PinName pin = DefaultOptionPinName then Some Pin else old)
                  }) (Pins nd) None = Some (Some ?old)"
    using find_old_default [of "Pins nd" g0 None] valid olds
    by (simp add: store0 split: list.splits)
  from reconstruction_start [OF nd]
  obtain g1 g2 where c1: "CreateDefaultOptionPin this g0 = Some g1"
    and c2: "CreateReturnValuePin this g1 = Some g2"
    and names2: "PinNames g2 this = map Some (PinLayout 0)"
    and R2: "Rebuilding g0 this g2"
    unfolding g0_def by blast
  have same2: "PinOf g2 p = PinOf g p" if "p < ?k" for p
  proof -
    have "take ?k (pin_store g2) ! p = pin_store g ! p"
      using R2 by (simp add: Rebuilding_def store0)
    moreover have "?k \<le> length (pin_store g2)"
      using R2 by (simp add: Rebuilding_def store0)
    ultimately show ?thesis
      using that by (simp add: PinOf_def)
  qed
  have K2: "length (filter (PinSatisfies g2 IsCaseKeyPin) (Pins nd)) = ?K"
  proof -
    have "filter (PinSatisfies g2 IsCaseKeyPin) (Pins nd) = filter (PinSatisfies g IsCaseKeyPin) (Pins nd)"
      using valid same2 by (intro filter_cong) (simp_all add: PinSatisfies_def)
    then show ?thesis
      by simp
  qed
  from readd_case_pairs [OF names2 R2, of ?K]
  obtain g3 where c3: "Super_ReallocatePinsDuringReconstruction this (Pins nd) g2 = Some g3"
    and names3: "PinNames g3 this = map Some (PinLayout ?K)"
    and R3: "Rebuilding g0 this g3"
    by (auto simp: Super_ReallocatePinsDuringReconstruction_def K2)
  have len3: "?k \<le> length (pin_store g3)" and pre3: "take ?k (pin_store g3) = pin_store g"
    using R3 by (simp_all add: Rebuilding_def store0)
  have node3: "?k \<le> p \<and> p < length (pin_store g3)
      \<and> (IsCaseValuePin (pin_store g3 ! p) \<longrightarrow> PinType (pin_store g3 ! p) = CategoryType PC_Boolean)"
    if "p \<in> set (NodePins g3 this)" for p
    using R3 that by (simp add: Rebuilding_def store0)
  obtain d where d: "GetDefaultOptionPin g3 this = Some d"
    using FindPin_PinNames [OF names3 Default_in_PinLayout] by (auto simp: GetDefaultOptionPin_def)
  obtain r where r: "GetReturnValuePin g3 this = Some r"
    using FindPin_PinNames [OF names3 Return_in_PinLayout] by (auto simp: GetReturnValuePin_def)
  have dn: "d \<in> set (NodePins g3 this)" and rn: "r \<in> set (NodePins g3 this)"
    using FindPin_SomeD(1) d r by (simp_all add: GetDefaultOptionPin_def GetReturnValuePin_def)
  have dname: "PinName (pin_store g3 ! d) = DefaultOptionPinName"
    and rname: "PinName (pin_store g3 ! r) = ReturnValueOptionPinName"
    using FindPin_Some_valid(2) d r by (simp_all add: GetDefaultOptionPin_def GetReturnValuePin_def)
  have old3: "?old < length (pin_store g3)" "PinType (pin_store g3 ! ?old) = ?T"
  proof -
    show "?old < length (pin_store g3)"
      using oldv len3 by simp
    have "take ?k (pin_store g3) ! ?old = pin_store g ! ?old"
      by (simp add: pre3)
    then show "PinType (pin_store g3 ! ?old) = ?T"
      using oldv by simp
  qed
  from RetypedOn_step [OF RetypedOn_empty _ old3] node3 [OF dn]
  obtain g4 where c4: "CopyPinType d ?old g3 = Some g4" and U4: "RetypedOn {d} ?T g3 g4"
    by blast
  have r4: "GetReturnValuePin g4 this = Some r"
    using Skeleton_FindPin [OF RetypedOn_Skeleton [OF U4]] r by (simp add: GetReturnValuePin_def)
  from RetypedOn_step [OF U4 _ old3] node3 [OF rn]
  obtain g5 where c5: "CopyPinType r ?old g4 = Some g5" and U5: "RetypedOn {r, d} ?T g3 g5"
    by blast
  have p5: "GetCasePinPairs g5 this = GetCasePinPairs g3 this"
    by (rule Skeleton_GetCasePinPairs [OF RetypedOn_Skeleton [OF U5]])
  have "\<forall>pr \<in> set (GetCasePinPairs g3 this). fst pr < length (pin_store g3)"
    by (simp add: GetCasePinPairs_valid)
  from RetypedOn_loop [OF U5 this old3]
  obtain g6 where c6: "ForEach (\<lambda>Pair g. CopyPinType (fst Pair) ?old g) (GetCasePinPairs g3 this) g5 = Some g6"
    and U6: "RetypedOn ({r, d} \<union> fst ` set (GetCasePinPairs g3 this)) ?T g3 g6"
    by blast
  let ?X = "{r, d} \<union> set (CaseKeyPins g3 this)"
  have U: "RetypedOn ?X ?T g3 g6"
    using U6 layout_pairs_cover_keys [OF names3] by simp
  have sk: "Skeleton g6 = Skeleton g3"
    by (rule RetypedOn_Skeleton [OF U])
  have "ReallocatePinsDuringReconstruction this (Pins nd) g0 = Some g6"
    using find c1 c2 c3 d c4 r4 c5 p5 c6 by (simp add: ReallocatePinsDuringReconstruction_def)
  then have res: "ReconstructNode this g = Some g6"
    using nd by (simp add: ReconstructNode_def g0_def)
  have d6: "GetDefaultOptionPin g6 this = Some d" and r6: "GetReturnValuePin g6 this = Some r"
    using Skeleton_FindPin [OF sk] d r by (simp_all add: GetDefaultOptionPin_def GetReturnValuePin_def)
  have keys6: "CaseKeyPins g6 this = CaseKeyPins g3 this"
    and vals6: "CaseValuePins g6 this = CaseValuePins g3 this"
    by (rule Skeleton_CaseKeyPins [OF sk], rule Skeleton_CaseValuePins [OF sk])
  have typed: "?k \<le> x \<and> map_option PinType (PinOf g6 x) = Some ?T" if "x \<in> ?X" for x
  proof -
    have "x \<in> set (NodePins g3 this)"
      using that dn rn CaseKeyPins_D(1) by auto
    then have "?k \<le> x" "x < length (pin_store g3)"
      using node3 by simp_all
    then show ?thesis
      using that RetypedOn_PinOf [OF U, of x] by (simp add: PinOf_def)
  qed
  have bools: "map_option PinType (PinOf g6 c) = Some (CategoryType PC_Boolean)"
    if "c \<in> set (CaseValuePins g3 this)" for c
  proof -
    have cv: "c \<in> set (NodePins g3 this)" "c < length (pin_store g3)" "IsCaseValuePin (pin_store g3 ! c)"
      using CaseValuePins_D [OF that] by simp_all
    have "c \<noteq> d" "c \<noteq> r"
      using cv(3) dname rname by (auto simp: IsCaseValuePin_def)
    moreover have "c \<notin> set (CaseKeyPins g3 this)"
      using cv(3) CaseKeyPins_D(3) key_pin_not_value_pin by blast
    ultimately have "c \<notin> ?X"
      by simp
    then have "PinOf g6 c = PinOf g3 c"
      using RetypedOn_PinOf [OF U, of c] by simp
    then show ?thesis
      using cv node3 [OF cv(1)] by (simp add: PinOf_def)
  qed
  have names6: "PinNames g6 this = map Some (PinLayout ?K)"
    using Skeleton_PinNames [OF sk] names3 by simp
  have "{d, r} \<union> set (CaseKeyPins g6 this) = ?X"
    using keys6 by auto
  then show ?thesis
    using res d6 r6 typed bools names6 vals6 by auto
qed


theorem ReconstructNode_copies_type_witness:
  "\<exists>g' d r. ReconstructNode 0 (ExampleGraph PC_Int) = Some g'
     \<and> GetDefaultOptionPin g' 0 = Some d \<and> GetReturnValuePin g' 0 = Some r
     \<and> (\<forall>x \<in> {d, r} \<union> set (CaseKeyPins g' 0).
           12 \<le> x \<and> map_option PinType (PinOf g' x) = Some (CategoryType PC_Int))
     \<and> (\<forall>c \<in> set (CaseValuePins g' 0).
           map_option PinType (PinOf g' c) = Some (CategoryType PC_Boolean))
     \<and> PinNames g' 0 = map Some (PinLayout 2)"
proof -
  let ?nd = "\<lparr>NodeClass = K2Node_MultiConditionalSelect, Pins = [0, 1, 2, 3, 4, 5]\<rparr>"
  let ?g = "ExampleGraph PC_Int"
  have nd: "NodeOf ?g 0 = Some ?nd"
    by (simp add: NodeOf_def ExampleGraph_def)
  have valid: "\<forall>p \<in> set (Pins ?nd). p < length (pin_store ?g)"
    by (simp add: ExampleGraph_def)
  have olds: "filter (\<lambda>p. PinName (pin_store ?g ! p) = DefaultOptionPinName) (Pins ?nd) = [0]"
    by (simp add: ExampleGraph_def ExamplePin_def DefaultOptionPinName_def)
  then have ne: "filter (\<lambda>p. PinName (pin_store ?g ! p) = DefaultOptionPinName) (Pins ?nd) \<noteq> []"
    by simp
  have T: "PinType (pin_store ?g ! 0) = CategoryType PC_Int"
    by (simp add: ExampleGraph_def ExamplePin_def)
  have K: "length (filter (PinSatisfies ?g IsCaseKeyPin) (Pins ?nd)) = 2"
    by (simp add: PinSatisfies_def PinOf_def IsCaseKeyPin_def StartsWith_def
        CaseKeyPinNamePrefix_def ExampleGraph_def ExamplePin_def)
  have len: "length (pin_store ?g) = 12"
    by (simp add: ExampleGraph_def)
  show ?thesis
    using ReconstructNode_copies_type [OF nd valid ne] unfolding olds K len by (simp add: T)
qed

section \<open>Connection validation: exec pins are refused, everything else is the base class's call\<close>

text \<open>
  Claim C7. \<^verbatim>\<open>IsConnectionDisallowed\<close> reports the connection as disallowed, with a
  non-empty human-readable reason, whenever the other pin's type category is the execution
  category; for every other pin (a null pointer included) it returns exactly the base
  class's decision and reason. Hence a connection is disallowed if and only if the other
  pin is an execution pin or the base class disallows it.
\<close>

theorem IsConnectionDisallowed_exec_or_super:
  "(\<forall>other. OtherPin = Some other \<and> PinCategory (PinType other) = PC_Exec \<longrightarrow>
      fst (IsConnectionDisallowed Super MyPin OtherPin OutReason) \<and>
      snd (IsConnectionDisallowed Super MyPin OtherPin OutReason) \<noteq> [])
   \<and> ((\<forall>other. OtherPin = Some other \<longrightarrow> PinCategory (PinType other) \<noteq> PC_Exec) \<longrightarrow>
      IsConnectionDisallowed Super MyPin OtherPin OutReason = Super MyPin OtherPin OutReason)
   \<and> (fst (IsConnectionDisallowed Super MyPin OtherPin OutReason) \<longleftrightarrow>
        (\<exists>other. OtherPin = Some other \<and> PinCategory (PinType other) = PC_Exec)
        \<or> fst (Super MyPin OtherPin OutReason))"
  by (cases OtherPin) (simp_all add: IsConnectionDisallowed_def ExecConnectionDisallowd_def)

theorem IsConnectionDisallowed_exec_or_super_witness:
  "fst (IsConnectionDisallowed (\<lambda>m p r. (False, r)) None
          (Some \<lparr>PinName = ''then'', PinFriendlyName = [], Direction = EGPD_Output,
                 PinType = CategoryType PC_Exec, DefaultValue = [], LinkedTo = [],
                 OwningNode = 0\<rparr>) [])
   \<and> snd (IsConnectionDisallowed (\<lambda>m p r. (False, r)) None
          (Some \<lparr>PinName = ''then'', PinFriendlyName = [], Direction = EGPD_Output,
                 PinType = CategoryType PC_Exec, DefaultValue = [], LinkedTo = [],
                 OwningNode = 0\<rparr>) []) \<noteq> []
   \<and> IsConnectionDisallowed (\<lambda>m p r. (True, ''Types differ.'')) None
          (Some \<lparr>PinName = ''flag'', PinFriendlyName = [], Direction = EGPD_Output,
                 PinType = CategoryType PC_Boolean, DefaultValue = [], LinkedTo = [],
                 OwningNode = 0\<rparr>) [] = (True, ''Types differ.'')"
  using IsConnectionDisallowed_exec_or_super
          [of "Some \<lparr>PinName = ''then'', PinFriendlyName = [], Direction = EGPD_Output,
                 PinType = CategoryType PC_Exec, DefaultValue = [], LinkedTo = [],
                 OwningNode = 0\<rparr>" "\<lambda>m p r. (False, r)" None "[]"]
        IsConnectionDisallowed_exec_or_super
          [of "Some \<lparr>PinName = ''flag'', PinFriendlyName = [], Direction = EGPD_Output,
                 PinType = CategoryType PC_Boolean, DefaultValue = [], LinkedTo = [],
                 OwningNode = 0\<rparr>" "\<lambda>m p r. (True, ''Types differ.'')" None "[]"]
  by (simp add: CategoryType_def PC_Exec_def PC_Boolean_def)

end
